theory Spec2Isabelle
  imports Complex_Main "HOL-Library.Word" "HOL-Library.Signed_Division" "HOL-Library.Log_Nat"
begin

section \<open>Data model of the mesh sampler\<close>

text \<open>
  The embedding follows \<^verbatim>\<open>source/blender/blenkernel/intern/mesh_sample.c\<close> and the
  \<^verbatim>\<open>Options\<close> struct of \<^verbatim>\<open>extern/softbody/src/admmpd_types.h\<close>.

  Conventions of the embedding:
  \<^item> a C \<^verbatim>\<open>float\<close> or \<^verbatim>\<open>double\<close> is a \<^typ>\<open>real\<close>. In the evaluation and the ray cast the
    arithmetic is exact. In the weights of the random sampler (lines 197 to 201), where
    the sum of the weights depends on it, every operation rounds to binary32 with
    \<open>binary32_round\<close>. Infinities and NaN are not modelled;
  \<^item> \<^verbatim>\<open>float[3]\<close> is a triple of reals, \<^verbatim>\<open>short\<close> a 16-bit word read with \<^const>\<open>sint\<close>,
    \<^verbatim>\<open>unsigned int\<close> a 32-bit word read with \<^const>\<open>unat\<close>, \<^verbatim>\<open>int\<close> an \<^typ>\<open>int\<close> (the loop
    counters never leave the range of their bounds, so no wrap-around is reachable);
  \<^item> a C array together with its element count is a list, the count being its length;
  \<^item> undefined behaviour of the C code (division by zero, a read or a write outside an
    array) is a value of type \<open>error\<close>.
\<close>

type_synonym float3 = "real \<times> real \<times> real"
type_synonym short3 = "16 word \<times> 16 word \<times> 16 word"

text \<open>The fields of \<^verbatim>\<open>MVert\<close>, \<^verbatim>\<open>MFace\<close> and \<^verbatim>\<open>MSurfaceSample\<close> that the sampler reads and writes.\<close>

record MVert =
  co :: float3
  no :: short3

record MFace =
  v1 :: "32 word"
  v2 :: "32 word"
  v3 :: "32 word"
  v4 :: "32 word"

record MSurfaceSample =
  orig_verts :: "32 word \<times> 32 word \<times> 32 word"
  orig_weights :: float3

text \<open>
  A \<^verbatim>\<open>DerivedMesh\<close> as the sampler sees it: \<^verbatim>\<open>getVertArray\<close> with \<^verbatim>\<open>getNumVerts\<close>, and
  \<^verbatim>\<open>getTessFaceArray\<close> with \<^verbatim>\<open>getNumTessFaces\<close> (the state after \<^verbatim>\<open>DM_ensure_tessface\<close>).
\<close>

record DerivedMesh =
  getVertArray :: "MVert list"
  getTessFaceArray :: "MFace list"

definition getNumVerts :: "DerivedMesh \<Rightarrow> nat" where
  "getNumVerts dm = length (getVertArray dm)"

definition getNumTessFaces :: "DerivedMesh \<Rightarrow> int" where
  "getNumTessFaces dm = int (length (getTessFaceArray dm))"

datatype error = DivisionByZero | OutOfBounds

section \<open>Vector helpers of BLI_math\<close>

text \<open>
  Modelled from the spec: the vector helpers \<^verbatim>\<open>zero_v3\<close>, \<^verbatim>\<open>madd_v3_v3fl\<close>,
  \<^verbatim>\<open>normal_short_to_float_v3\<close>, \<^verbatim>\<open>sub_v3_v3v3\<close>, \<^verbatim>\<open>dot_v3v3\<close>, \<^verbatim>\<open>mul_v3_v3fl\<close> and
  \<^verbatim>\<open>normalize_v3\<close> belong to BLI_math, which is not among the source files. The spec
  describes the evaluation as a weighted sum, which fixes \<^verbatim>\<open>madd_v3_v3fl\<close> as
  \<open>r := r + a * f\<close>; the others are modelled by the contract their names state:
  \<^verbatim>\<open>normal_short_to_float_v3\<close> scales a short by \<open>1 / 32767\<close>, and \<^verbatim>\<open>normalize_v3\<close> scales a
  vector to unit length, returns its former length, and gives the zero vector and
  length 0 when the squared length is not above \<open>1e-35\<close>.
\<close>

definition zero_v3 :: float3 where
  "zero_v3 = (0, 0, 0)"

fun madd_v3_v3fl :: "float3 \<Rightarrow> float3 \<Rightarrow> real \<Rightarrow> float3" where
  "madd_v3_v3fl (r0, r1, r2) (a0, a1, a2) f = (r0 + a0 * f, r1 + a1 * f, r2 + a2 * f)"

fun normal_short_to_float_v3 :: "short3 \<Rightarrow> float3" where
  "normal_short_to_float_v3 (i0, i1, i2) =
     (real_of_int (sint i0) * (1 / 32767),
      real_of_int (sint i1) * (1 / 32767),
      real_of_int (sint i2) * (1 / 32767))"


fun dot_v3v3 :: "float3 \<Rightarrow> float3 \<Rightarrow> real" where
  "dot_v3v3 (a0, a1, a2) (b0, b1, b2) = a0 * b0 + a1 * b1 + a2 * b2"

fun mul_v3_v3fl :: "float3 \<Rightarrow> real \<Rightarrow> float3" where
  "mul_v3_v3fl (a0, a1, a2) f = (a0 * f, a1 * f, a2 * f)"

definition normalize_v3 :: "float3 \<Rightarrow> real \<times> float3" where
  "normalize_v3 n =
     (let d = dot_v3v3 n n in
      if d > 1 / 10 ^ 35 then (sqrt d, mul_v3_v3fl n (1 / sqrt d))
      else (0, zero_v3))"

section \<open>Evaluate\<close>

text \<open>
  \<^verbatim>\<open>BKE_mesh_sample_eval\<close>: the result is the returned flag with the contents of the output
  buffers \<^verbatim>\<open>loc\<close> and \<^verbatim>\<open>nor\<close> on return. Both buffers are zeroed before anything is read,
  so their contents on entry play no part.
\<close>

definition BKE_mesh_sample_eval :: "DerivedMesh \<Rightarrow> MSurfaceSample \<Rightarrow> bool \<times> float3 \<times> float3" where
  "BKE_mesh_sample_eval dm sample =
     (let mverts = getVertArray dm;
          totverts = getNumVerts dm;
          (i0, i1, i2) = orig_verts sample;
          (w0, w1, w2) = orig_weights sample;
          loc = zero_v3;
          nor = zero_v3
      in
        if unat i0 \<ge> totverts \<or> unat i1 \<ge> totverts \<or> unat i2 \<ge> totverts
        then (False, loc, nor)
        else
          let vt1 = mverts ! unat i0;
              vt2 = mverts ! unat i1;
              vt3 = mverts ! unat i2;
              loc = madd_v3_v3fl loc (co vt1) w0;
              loc = madd_v3_v3fl loc (co vt2) w1;
              loc = madd_v3_v3fl loc (co vt3) w2;
              nor = madd_v3_v3fl nor (normal_short_to_float_v3 (no vt1)) w0;
              nor = madd_v3_v3fl nor (normal_short_to_float_v3 (no vt2)) w1;
              nor = madd_v3_v3fl nor (normal_short_to_float_v3 (no vt3)) w2
          in (True, loc, snd (normalize_v3 nor)))"

text \<open>
  The claim's reading of a weighted sum of three vectors, componentwise:
  \<open>w0 * a + w1 * b + w2 * c\<close>.
\<close>

fun weighted_sum_v3 :: "float3 \<Rightarrow> float3 \<Rightarrow> float3 \<Rightarrow> float3 \<Rightarrow> float3" where
  "weighted_sum_v3 (w0, w1, w2) (a0, a1, a2) (b0, b1, b2) (c0, c1, c2) =
     (w0 * a0 + w1 * b0 + w2 * c0, w0 * a1 + w1 * b1 + w2 * c1, w0 * a2 + w1 * b2 + w2 * c2)"

section \<open>Sample storage\<close>

text \<open>
  \<^verbatim>\<open>MSurfaceSampleStorage\<close>: the \<^verbatim>\<open>store_sample\<close> callback takes the data, the capacity, the
  index and the sample, and returns whether it stored, with the data afterwards.
\<close>

type_synonym 'd store_sample_fn = "'d \<Rightarrow> int \<Rightarrow> int \<Rightarrow> MSurfaceSample \<Rightarrow> error + (bool \<times> 'd)"

record 'd MSurfaceSampleStorage =
  store_sample :: "'d store_sample_fn"
  capacity :: int
  data :: 'd
  free_data :: bool

text \<open>
  \<^verbatim>\<open>mesh_sample_store_array_sample\<close>: the data is the caller's array of samples. The C
  code checks the index against the capacity only; a write outside the array is
  undefined behaviour.
\<close>

definition mesh_sample_store_array_sample :: "MSurfaceSample list store_sample_fn" where
  "mesh_sample_store_array_sample vdata cap index sample =
     (if index \<ge> cap then Inr (False, vdata)
      else if index < 0 \<or> index \<ge> int (length vdata) then Inl OutOfBounds
      else Inr (True, vdata[nat index := sample]))"

definition BKE_mesh_sample_storage_single :: "MSurfaceSample \<Rightarrow> MSurfaceSample list MSurfaceSampleStorage" where
  "BKE_mesh_sample_storage_single sample =
     \<lparr>store_sample = mesh_sample_store_array_sample, capacity = 1, data = [sample], free_data = False\<rparr>"

definition BKE_mesh_sample_storage_array ::
    "MSurfaceSample list \<Rightarrow> int \<Rightarrow> MSurfaceSample list MSurfaceSampleStorage" where
  "BKE_mesh_sample_storage_array samples cap =
     \<lparr>store_sample = mesh_sample_store_array_sample, capacity = cap, data = samples, free_data = False\<rparr>"

section \<open>Rounding to binary32\<close>

text \<open>
  The value a C \<^verbatim>\<open>float\<close> operation stores for the exact result \<open>x\<close>: the nearest binary32
  number, a tie going to the even significand. Every binary32 number is a multiple of
  \<open>2 ^ - 149\<close>; with \<open>y = |x| * 2 ^ 149\<close>, the spacing of the binary32 numbers around
  \<open>y\<close> is \<open>2 ^ (bitlen \<lfloor>y\<rfloor> - 24)\<close>, and 1 in the subnormal range. Overflow to infinity
  (from \<open>2 ^ 128\<close>) is not modelled; the sampler rounds values up to 2 and integers
  below \<open>2 ^ 31\<close>.
\<close>

definition round_even :: "real \<Rightarrow> int" where
  "round_even z =
     (let f = \<lfloor>z\<rfloor>; d = z - of_int f in
      if d < 1 / 2 then f else if 1 / 2 < d then f + 1 else if even f then f else f + 1)"

definition binary32_round :: "real \<Rightarrow> real" where
  "binary32_round x =
     (let y = \<bar>x\<bar> * 2 ^ 149;
          u = 2 ^ nat (bitlen \<lfloor>y\<rfloor> - 24)
      in sgn x * (of_int (round_even (y / u)) * u / 2 ^ 149))"

section \<open>Random sampling\<close>

text \<open>
  The random number generator of BLI_rand is not among the source files and the spec
  does not describe it, so the sampler takes it as a parameter: the state made from a
  seed by \<^verbatim>\<open>BLI_rng_new\<close>, and the two draws, each returning its value with the next state.
\<close>

record 'r RNG =
  BLI_rng_new :: "32 word \<Rightarrow> 'r"
  BLI_rng_get_int :: "'r \<Rightarrow> int \<times> 'r"
  BLI_rng_get_float :: "'r \<Rightarrow> real \<times> 'r"

text \<open>
  What a generation loop leaves behind: the returned count \<open>stored\<close>, the contents of the
  storage, and, as a ghost, what each iteration that began did.
\<close>

datatype outcome = Stored | StoreFailed | CallbackFailed | RayMissed

record 'd generated =
  stored :: int
  dst_data :: 'd
  trace :: "outcome list"

text \<open>
  The body of the loop of \<^verbatim>\<open>BKE_mesh_sample_generate_random\<close> up to the store (lines
  180 to 203): the face is drawn with C's truncating \<^verbatim>\<open>%\<close>, the second draw happens only
  for a quad (\<^verbatim>\<open>&&\<close> short-circuits), then the two weights are drawn. The additions and
  subtractions of lines 197 to 201 are \<^verbatim>\<open>float\<close> operations, each rounded to binary32.
\<close>

definition random_sample :: "'r RNG \<Rightarrow> MFace list \<Rightarrow> int \<Rightarrow> 'r \<Rightarrow> error + (MSurfaceSample \<times> 'r)" where
  "random_sample rng mfaces totfaces r =
     (let (n, r) = BLI_rng_get_int rng r in
      if totfaces = 0 then Inl DivisionByZero
      else
        let k = n smod totfaces in
        if k < 0 \<or> k \<ge> int (length mfaces) then Inl OutOfBounds
        else
          let mface = mfaces ! nat k;
              (other_tri, r) =
                (if v4 mface \<noteq> 0
                 then (let (m, r) = BLI_rng_get_int rng r in (m smod 2 = 0, r))
                 else (False, r));
              verts = (if other_tri then (v3 mface, v4 mface, v1 mface)
                       else (v1 mface, v2 mface, v3 mface));
              (a, r) = BLI_rng_get_float rng r;
              (b, r) = BLI_rng_get_float rng r;
              (a, b) = (if binary32_round (a + b) > 1
                        then (binary32_round (1 - a), binary32_round (1 - b))
                        else (a, b))
          in Inr (\<lparr>orig_verts = verts,
                   orig_weights = (binary32_round (1 - binary32_round (a + b)), a, b)\<rparr>, r))"

function generate_random_loop ::
    "'r RNG \<Rightarrow> 'd store_sample_fn \<Rightarrow> int \<Rightarrow> MFace list \<Rightarrow> int \<Rightarrow> int \<Rightarrow> int \<Rightarrow> 'r \<Rightarrow> 'd generated
      \<Rightarrow> error + 'd generated" where
  "generate_random_loop rng store cap mfaces totfaces totsample i r st =
     (if i < totsample then
        (case random_sample rng mfaces totfaces r of
           Inl e \<Rightarrow> Inl e
         | Inr (sample, r') \<Rightarrow>
             (case store (dst_data st) cap i sample of
                Inl e \<Rightarrow> Inl e
              | Inr (ok, d) \<Rightarrow>
                  if ok
                  then generate_random_loop rng store cap mfaces totfaces totsample (i + 1) r'
                         (st\<lparr>stored := stored st + 1, dst_data := d, trace := trace st @ [Stored]\<rparr>)
                  else Inr (st\<lparr>dst_data := d, trace := trace st @ [StoreFailed]\<rparr>)))
      else Inr st)"
  by pat_completeness auto
termination
  by (relation "measure (\<lambda>(rng, store, cap, mfaces, totfaces, totsample, i, r, st). nat (totsample - i))") auto

declare generate_random_loop.simps [simp del]

definition BKE_mesh_sample_generate_random ::
    "'r RNG \<Rightarrow> 'd MSurfaceSampleStorage \<Rightarrow> DerivedMesh \<Rightarrow> 32 word \<Rightarrow> int \<Rightarrow> error + 'd generated" where
  "BKE_mesh_sample_generate_random rng dst dm seed totsample =
     generate_random_loop rng (store_sample dst) (capacity dst)
       (getTessFaceArray dm) (getNumTessFaces dm) totsample 0 (BLI_rng_new rng seed)
       \<lparr>stored = 0, dst_data = data dst, trace = []\<rparr>"

section \<open>Raycast sampling\<close>












section \<open>Solver options\<close>

text \<open>
  The struct \<^verbatim>\<open>Options\<close> of \<^verbatim>\<open>admmpd_types.h\<close> and the value its constructor
  \<^verbatim>\<open>Options()\<close> builds.
\<close>

record Options =
  timestep_s :: real
  max_admm_iters :: int
  max_cg_iters :: int
  max_gs_iters :: int
  mult_k :: real
  min_res :: real
  youngs :: real
  poisson :: real
  grav :: float3

definition Options_default :: Options where
  "Options_default =
     \<lparr>timestep_s = 1 / 24,
      max_admm_iters = 50,
      max_cg_iters = 10,
      max_gs_iters = 30,
      mult_k = 1,
      min_res = 1 / 10 ^ 6,
      youngs = 1000000,
      poisson = 299 / 1000,
      grav = (0, 0, - (98 / 10))\<rparr>"

section \<open>Observations and concrete inputs\<close>

text \<open>The samples a run has stored in an array: the first \<open>stored\<close> entries.\<close>

definition stored_samples :: "MSurfaceSample list generated \<Rightarrow> MSurfaceSample list" where
  "stored_samples res = take (nat (stored res)) (dst_data res)"

text \<open>What a caller can see of a run into an array: the returned count and the stored samples.\<close>

definition returned_and_stored :: "MSurfaceSample list generated \<Rightarrow> int \<times> MSurfaceSample list" where
  "returned_and_stored res = (stored res, stored_samples res)"

text \<open>
  The weights lines 197 to 203 compute from a drawn pair \<open>(a, b)\<close>: the pair is reflected
  to \<open>(1 - a, 1 - b)\<close> when \<open>a + b > 1\<close>, and the weights are \<open>(1 - (a + b), a, b)\<close> of the
  pair after that, every operation in binary32.
\<close>

definition reflected_weights :: "real \<Rightarrow> real \<Rightarrow> float3" where
  "reflected_weights a b =
     (if binary32_round (a + b) > 1
      then (binary32_round (1 - binary32_round (binary32_round (1 - a) + binary32_round (1 - b))),
            binary32_round (1 - a), binary32_round (1 - b))
      else (binary32_round (1 - binary32_round (a + b)), a, b))"

text \<open>Barycentric weights as the claim has them: each non-negative, and summing to 1.\<close>

fun barycentric :: "float3 \<Rightarrow> bool" where
  "barycentric (w0, w1, w2) = (0 \<le> w0 \<and> 0 \<le> w1 \<and> 0 \<le> w2 \<and> w0 + w1 + w2 = 1)"

text \<open>Barycentric weights up to the rounding of three binary32 operations.\<close>

fun barycentric_binary32 :: "float3 \<Rightarrow> bool" where
  "barycentric_binary32 (w0, w1, w2) =
     (0 \<le> w0 \<and> 0 \<le> w1 \<and> 0 \<le> w2 \<and> \<bar>w0 + w1 + w2 - 1\<bar> \<le> 3 / 2 ^ 25)"

text \<open>
  A mesh to run the sampler on: the unit square in the plane \<open>z = 0\<close>, as a triangle and
  a quad over four vertices.
\<close>

definition example_mesh :: DerivedMesh where
  "example_mesh =
     \<lparr>getVertArray =
        [\<lparr>co = (0, 0, 0), no = (32767, 0, 0)\<rparr>,
         \<lparr>co = (1, 0, 0), no = (0, 32767, 0)\<rparr>,
         \<lparr>co = (0, 1, 0), no = (0, 0, 32767)\<rparr>,
         \<lparr>co = (1, 1, 0), no = (19660, 26214, 0)\<rparr>],
      getTessFaceArray =
        [\<lparr>v1 = 0, v2 = 1, v3 = 2, v4 = 0\<rparr>,
         \<lparr>v1 = 0, v2 = 1, v3 = 3, v4 = 2\<rparr>]\<rparr>"

definition zero_sample :: MSurfaceSample where
  "zero_sample = \<lparr>orig_verts = (0, 0, 0), orig_weights = (0, 0, 0)\<rparr>"

text \<open>
  A generator to run the sampler with: a 48-bit linear congruential generator in the
  style of \<^verbatim>\<open>drand48\<close>, whose draws are the upper 31 bits of the state; a float draw is
  that integer converted to \<^verbatim>\<open>float\<close> and divided by \<open>2 ^ 31\<close>. No theorem about the sampler
  depends on it; it only instantiates them.
\<close>

definition example_rng_step :: "int \<Rightarrow> int" where
  "example_rng_step x = (25214903917 * x + 11) mod 2 ^ 48"

definition example_rng :: "int RNG" where
  "example_rng =
     \<lparr>BLI_rng_new = (\<lambda>seed. uint seed * 2 ^ 16 + 13070),
      BLI_rng_get_int = (\<lambda>x. (example_rng_step x div 2 ^ 17, example_rng_step x)),
      BLI_rng_get_float =
        (\<lambda>x. (binary32_round (real_of_int (example_rng_step x div 2 ^ 17)) / 2 ^ 31,
              example_rng_step x))\<rparr>"

text \<open>
  What \<^verbatim>\<open>BKE_mesh_sample_generate_random\<close> leaves with this generator, seed 7, \<open>example_mesh\<close>,
  an array of three zeroed samples with capacity 2, and five samples asked for.
\<close>

definition example_generated :: "MSurfaceSample list generated" where
  "example_generated =
     \<lparr>stored = 2,
      dst_data =
        [\<lparr>orig_verts = (3, 2, 0),
          orig_weights = (5078451 / 8388608, 4454193 / 16777216, 4332241 / 33554432)\<rparr>,
         \<lparr>orig_verts = (0, 1, 2),
          orig_weights = (2275265 / 4194304, 9984887 / 33554432, 41933 / 262144)\<rparr>,
         zero_sample],
      trace = [Stored, Stored, StoreFailed]\<rparr>"

text \<open>
  The same with seed 6, an array of one zeroed sample with capacity 1, and two samples
  asked for; the first pair drawn is reflected.
\<close>

definition example_generated_reflected :: "MSurfaceSample list generated" where
  "example_generated_reflected =
     \<lparr>stored = 1,
      dst_data =
        [\<lparr>orig_verts = (0, 1, 3),
          orig_weights = (1599163 / 8388608, 1983717 / 4194304, 2822011 / 8388608)\<rparr>],
      trace = [Stored, StoreFailed]\<rparr>"






section \<open>Evaluation: theorems\<close>

lemma sqrt_9_25: "sqrt (9 / 25) = 3 / 5"
  by (rule real_sqrt_unique) (simp_all add: power2_eq_square)

text \<open>A vector that \<^verbatim>\<open>normalize_v3\<close> leaves as it is has length 1 or is the zero vector.\<close>

lemma normalize_v3_fixed:
  assumes "snd (normalize_v3 (x, y, z)) = (x, y, z)"
  shows "(x, y, z) = (0, 0, 0) \<or> x * x + y * y + z * z = 1"
proof (cases "x * x + y * y + z * z > 1 / 10 ^ 35")
  case False
  with assms show ?thesis by (simp add: normalize_v3_def Let_def zero_v3_def)
next
  case True
  let ?d = "x * x + y * y + z * z"
  from True have pos: "0 < ?d" by (smt (verit) zero_less_divide_1_iff zero_less_power)
  from assms True have e: "x * (1 / sqrt ?d) = x" "y * (1 / sqrt ?d) = y" "z * (1 / sqrt ?d) = z"
    by (simp_all add: normalize_v3_def Let_def)
  from pos have "x \<noteq> 0 \<or> y \<noteq> 0 \<or> z \<noteq> 0" by auto
  moreover have aux: "\<And>t c :: real. t \<noteq> 0 \<Longrightarrow> t * c = t \<Longrightarrow> c = 1" by simp
  ultimately have "1 / sqrt ?d = 1" using e by metis
  then have "sqrt ?d = 1" by simp
  then have "?d = 1" by simp
  then show ?thesis by simp
qed

text \<open>
  C1, as the code has it: for every sample whose three vertex indices are in range,
  \<^verbatim>\<open>BKE_mesh_sample_eval\<close> returns true, the position is the weighted sum of the three
  vertices' positions, and the normal is \<^verbatim>\<open>normalize_v3\<close> of the weighted sum of the three
  vertices' normals (each converted from shorts by \<^verbatim>\<open>normal_short_to_float_v3\<close>): the sum
  scaled to unit length, not the sum itself.
\<close>

theorem eval_in_range:
  assumes "orig_verts sample = (i0, i1, i2)"
    and "unat i0 < getNumVerts dm" and "unat i1 < getNumVerts dm" and "unat i2 < getNumVerts dm"
  shows "BKE_mesh_sample_eval dm sample =
     (True,
      weighted_sum_v3 (orig_weights sample)
        (co (getVertArray dm ! unat i0)) (co (getVertArray dm ! unat i1)) (co (getVertArray dm ! unat i2)),
      snd (normalize_v3 (weighted_sum_v3 (orig_weights sample)
        (normal_short_to_float_v3 (no (getVertArray dm ! unat i0)))
        (normal_short_to_float_v3 (no (getVertArray dm ! unat i1)))
        (normal_short_to_float_v3 (no (getVertArray dm ! unat i2))))))"
proof -
  obtain w0 w1 w2 where w: "orig_weights sample = (w0, w1, w2)" by (metis prod_cases3)
  obtain a0 a1 a2 where a: "co (getVertArray dm ! unat i0) = (a0, a1, a2)" by (metis prod_cases3)
  obtain b0 b1 b2 where b: "co (getVertArray dm ! unat i1) = (b0, b1, b2)" by (metis prod_cases3)
  obtain c0 c1 c2 where c: "co (getVertArray dm ! unat i2) = (c0, c1, c2)" by (metis prod_cases3)
  obtain k0 k1 k2 where k: "no (getVertArray dm ! unat i0) = (k0, k1, k2)" by (metis prod_cases3)
  obtain l0 l1 l2 where l: "no (getVertArray dm ! unat i1) = (l0, l1, l2)" by (metis prod_cases3)
  obtain m0 m1 m2 where m: "no (getVertArray dm ! unat i2) = (m0, m1, m2)" by (metis prod_cases3)
  show ?thesis
    using assms
    by (simp add: BKE_mesh_sample_eval_def Let_def zero_v3_def w a b c k l m mult.commute)
qed

theorem eval_in_range_witness:
  "unat (0 :: 32 word) < getNumVerts example_mesh
   \<and> unat (1 :: 32 word) < getNumVerts example_mesh
   \<and> unat (2 :: 32 word) < getNumVerts example_mesh
   \<and> BKE_mesh_sample_eval example_mesh \<lparr>orig_verts = (0, 1, 2), orig_weights = (1 / 5, 2 / 5, 2 / 5)\<rparr>
       = (True, (2 / 5, 2 / 5, 0), (1 / 3, 2 / 3, 2 / 3))"
proof -
  let ?s = "\<lparr>orig_verts = (0, 1, 2), orig_weights = (1 / 5, 2 / 5, 2 / 5)\<rparr>"
  have h0: "orig_verts ?s = (0, 1, 2)" by simp
  have h1: "unat (0 :: 32 word) < getNumVerts example_mesh"
    and h2: "unat (1 :: 32 word) < getNumVerts example_mesh"
    and h3: "unat (2 :: 32 word) < getNumVerts example_mesh"
    by (simp_all add: getNumVerts_def example_mesh_def)
  show ?thesis
    using eval_in_range [OF h0 h1 h2 h3] h1 h2 h3
    by (simp add: example_mesh_def normalize_v3_def sqrt_9_25)
qed

text \<open>
  C1 as stated fails on the normal: at the corner triangle of \<open>example_mesh\<close>, whose three
  vertex normals are the three axes, the weights \<open>(1/5, 2/5, 2/5)\<close> give the weighted sum
  \<open>(1/5, 2/5, 2/5)\<close> of the normals, and the code returns \<open>(1/3, 2/3, 2/3)\<close>.
\<close>

theorem eval_in_range_counterexample:
  "fst (BKE_mesh_sample_eval example_mesh \<lparr>orig_verts = (0, 1, 2), orig_weights = (1 / 5, 2 / 5, 2 / 5)\<rparr>)
   \<and> snd (snd (BKE_mesh_sample_eval example_mesh
                  \<lparr>orig_verts = (0, 1, 2), orig_weights = (1 / 5, 2 / 5, 2 / 5)\<rparr>)) = (1 / 3, 2 / 3, 2 / 3)
   \<and> weighted_sum_v3 (1 / 5, 2 / 5, 2 / 5)
        (normal_short_to_float_v3 (no (getVertArray example_mesh ! 0)))
        (normal_short_to_float_v3 (no (getVertArray example_mesh ! 1)))
        (normal_short_to_float_v3 (no (getVertArray example_mesh ! 2))) = (1 / 5, 2 / 5, 2 / 5)
   \<and> (1 / 3, 2 / 3, 2 / 3) \<noteq> (1 / 5 :: real, 2 / 5 :: real, 2 / 5 :: real)"
  by (simp add: BKE_mesh_sample_eval_def Let_def zero_v3_def example_mesh_def getNumVerts_def
        normalize_v3_def sqrt_9_25)

text \<open>
  C2, as the code has it: for every sample whose three vertex indices are in range, with
  weight 1 at vertex \<open>k\<close> and weight 0 at the other two, \<^verbatim>\<open>BKE_mesh_sample_eval\<close> returns
  true, exactly the position of vertex \<open>k\<close>, and \<^verbatim>\<open>normalize_v3\<close> of the normal of vertex
  \<open>k\<close> converted from shorts.
\<close>

theorem eval_at_vertex:
  assumes "orig_verts sample = (i0, i1, i2)"
    and "unat i0 < getNumVerts dm" and "unat i1 < getNumVerts dm" and "unat i2 < getNumVerts dm"
    and "orig_weights sample = (1, 0, 0) \<and> k = i0
       \<or> orig_weights sample = (0, 1, 0) \<and> k = i1
       \<or> orig_weights sample = (0, 0, 1) \<and> k = i2"
  shows "BKE_mesh_sample_eval dm sample =
     (True, co (getVertArray dm ! unat k),
      snd (normalize_v3 (normal_short_to_float_v3 (no (getVertArray dm ! unat k)))))"
proof -
  obtain a0 a1 a2 where a: "co (getVertArray dm ! unat i0) = (a0, a1, a2)" by (metis prod_cases3)
  obtain b0 b1 b2 where b: "co (getVertArray dm ! unat i1) = (b0, b1, b2)" by (metis prod_cases3)
  obtain c0 c1 c2 where c: "co (getVertArray dm ! unat i2) = (c0, c1, c2)" by (metis prod_cases3)
  obtain k0 k1 k2 where k: "no (getVertArray dm ! unat i0) = (k0, k1, k2)" by (metis prod_cases3)
  obtain l0 l1 l2 where l: "no (getVertArray dm ! unat i1) = (l0, l1, l2)" by (metis prod_cases3)
  obtain m0 m1 m2 where m: "no (getVertArray dm ! unat i2) = (m0, m1, m2)" by (metis prod_cases3)
  show ?thesis
    using assms
    by (auto simp: BKE_mesh_sample_eval_def Let_def zero_v3_def a b c k l m)
qed

theorem eval_at_vertex_witness:
  "unat (0 :: 32 word) < getNumVerts example_mesh
   \<and> unat (3 :: 32 word) < getNumVerts example_mesh
   \<and> unat (1 :: 32 word) < getNumVerts example_mesh
   \<and> BKE_mesh_sample_eval example_mesh \<lparr>orig_verts = (0, 3, 1), orig_weights = (0, 1, 0)\<rparr> =
       (True, (1, 1, 0), snd (normalize_v3 (19660 / 32767, 26214 / 32767, 0)))"
proof -
  let ?s = "\<lparr>orig_verts = (0, 3, 1), orig_weights = (0, 1, 0)\<rparr>"
  have h0: "orig_verts ?s = (0, 3, 1)" by simp
  have h1: "unat (0 :: 32 word) < getNumVerts example_mesh"
    and h2: "unat (3 :: 32 word) < getNumVerts example_mesh"
    and h3: "unat (1 :: 32 word) < getNumVerts example_mesh"
    by (simp_all add: getNumVerts_def example_mesh_def)
  have h4: "orig_weights ?s = (1, 0, 0) \<and> (3 :: 32 word) = 0
       \<or> orig_weights ?s = (0, 1, 0) \<and> (3 :: 32 word) = 3
       \<or> orig_weights ?s = (0, 0, 1) \<and> (3 :: 32 word) = 1" by simp
  show ?thesis
    using eval_at_vertex [OF h0 h1 h2 h3 h4] h1 h2 h3
    by (simp add: example_mesh_def)
qed

text \<open>
  C2 as stated fails twice on \<open>example_mesh\<close>. With weight 1 at the in-range vertex 3 and
  weight 0 at two indices out of range, the code returns false and zeros, not the position
  \<open>(1, 1, 0)\<close> of vertex 3. With all three indices in range, the normal returned for
  vertex 3, whose stored normal \<open>(19660, 26214, 0) / 32767\<close> is not of length 1, is not
  that normal.
\<close>

theorem eval_at_vertex_counterexample:
  "BKE_mesh_sample_eval example_mesh \<lparr>orig_verts = (3, 9, 9), orig_weights = (1, 0, 0)\<rparr>
     = (False, (0, 0, 0), (0, 0, 0))
   \<and> co (getVertArray example_mesh ! 3) = (1, 1, 0)
   \<and> fst (BKE_mesh_sample_eval example_mesh \<lparr>orig_verts = (3, 0, 1), orig_weights = (1, 0, 0)\<rparr>)
   \<and> snd (snd (BKE_mesh_sample_eval example_mesh \<lparr>orig_verts = (3, 0, 1), orig_weights = (1, 0, 0)\<rparr>))
       \<noteq> normal_short_to_float_v3 (no (getVertArray example_mesh ! 3))"
proof -
  have n: "snd (normalize_v3 (19660 / 32767, 26214 / 32767, 0)) \<noteq> (19660 / 32767, 26214 / 32767, 0)"
    using normalize_v3_fixed [of "19660 / 32767" "26214 / 32767" 0] by auto
  show ?thesis
    using n
    by (simp add: BKE_mesh_sample_eval_def Let_def zero_v3_def example_mesh_def getNumVerts_def)
qed

text \<open>
  C8: when any of the three vertex indices of the sample is at or beyond the vertex
  count of the mesh, \<^verbatim>\<open>BKE_mesh_sample_eval\<close> returns false and both outputs, the
  position and the normal, are \<open>(0, 0, 0)\<close>.
\<close>

theorem eval_out_of_range:
  assumes "orig_verts sample = (i0, i1, i2)"
    and "getNumVerts dm \<le> unat i0 \<or> getNumVerts dm \<le> unat i1 \<or> getNumVerts dm \<le> unat i2"
  shows "BKE_mesh_sample_eval dm sample = (False, (0, 0, 0), (0, 0, 0))"
  using assms
  by (auto simp: BKE_mesh_sample_eval_def Let_def zero_v3_def split: prod.splits)

theorem eval_out_of_range_witness:
  "(getNumVerts example_mesh \<le> unat (0 :: 32 word) \<or> getNumVerts example_mesh \<le> unat (7 :: 32 word)
      \<or> getNumVerts example_mesh \<le> unat (1 :: 32 word))
   \<and> BKE_mesh_sample_eval example_mesh \<lparr>orig_verts = (0, 7, 1), orig_weights = (1 / 2, 1 / 4, 1 / 4)\<rparr>
       = (False, (0, 0, 0), (0, 0, 0))"
proof -
  let ?s = "\<lparr>orig_verts = (0, 7, 1), orig_weights = (1 / 2, 1 / 4, 1 / 4)\<rparr>"
  have h0: "orig_verts ?s = (0, 7, 1)" by simp
  have h1: "getNumVerts example_mesh \<le> unat (0 :: 32 word) \<or> getNumVerts example_mesh \<le> unat (7 :: 32 word)
      \<or> getNumVerts example_mesh \<le> unat (1 :: 32 word)"
    by (simp add: getNumVerts_def example_mesh_def)
  show ?thesis
    using eval_out_of_range [OF h0 h1] h1 by blast
qed

section \<open>Random sampling: theorems\<close>

lemma smod_range: "0 \<le> n \<Longrightarrow> 0 < t \<Longrightarrow> 0 \<le> n smod t \<and> n smod t < (t::int)"
  by (simp add: smod_int_alt_def sgn_if)

text \<open>
  With at least one face and a generator whose integers are not negative, the body of
  the loop reads inside the face array and returns a sample.
\<close>

lemma random_sample_returns:
  assumes "mfaces \<noteq> []" and "\<forall>r. 0 \<le> fst (BLI_rng_get_int rng r)"
  shows "\<exists>s r'. random_sample rng mfaces (int (length mfaces)) r = Inr (s, r')"
proof -
  obtain n r1 where d: "BLI_rng_get_int rng r = (n, r1)" by (cases "BLI_rng_get_int rng r")
  with assms(2) have "0 \<le> n" by (metis fst_conv)
  moreover have "0 < int (length mfaces)" using assms(1) by simp
  ultimately have "0 \<le> n smod int (length mfaces) \<and> n smod int (length mfaces) < int (length mfaces)"
    by (rule smod_range)
  then show ?thesis
    using assms(1) by (simp add: random_sample_def d Let_def split: prod.splits)
qed

lemma random_sample_no_faces:
  "random_sample rng mfaces 0 r = Inl DivisionByZero"
  by (simp add: random_sample_def split: prod.splits)

lemma random_sample_not_div:
  "totfaces \<noteq> 0 \<Longrightarrow> random_sample rng mfaces totfaces r \<noteq> Inl DivisionByZero"
  by (simp add: random_sample_def Let_def split: prod.splits)

lemma generate_random_loop_done:
  "\<not> i < totsample \<Longrightarrow> generate_random_loop rng store cap mfaces totfaces totsample i r st = Inr st"
  by (subst generate_random_loop.simps) simp

lemma example_rng_int_nonneg: "\<forall>r. 0 \<le> fst (BLI_rng_get_int example_rng r)"
  by (simp add: example_rng_def example_rng_step_def pos_imp_zdiv_nonneg_iff)

lemma take_Suc_update:
  "i < length d \<Longrightarrow> take (Suc i) (d[i := s]) = take i d @ [s]"
  by (simp add: take_Suc_conv_app_nth)

text \<open>One turn of the loop of \<^verbatim>\<open>BKE_mesh_sample_generate_random\<close> over an array.\<close>

lemma array_loop_step:
  assumes "i < totsample" and "random_sample rng mfaces totfaces r = Inr (s, r')"
  shows "generate_random_loop rng mesh_sample_store_array_sample cap mfaces totfaces totsample i r st =
     (if i \<ge> cap then Inr (st\<lparr>trace := trace st @ [StoreFailed]\<rparr>)
      else if i < 0 \<or> i \<ge> int (length (dst_data st)) then Inl OutOfBounds
      else generate_random_loop rng mesh_sample_store_array_sample cap mfaces totfaces totsample (i + 1) r'
             (st\<lparr>stored := stored st + 1, dst_data := (dst_data st)[nat i := s],
                 trace := trace st @ [Stored]\<rparr>))"
  using assms
  by (subst generate_random_loop.simps) (simp add: mesh_sample_store_array_sample_def)

lemma array_loop_error:
  assumes "i < totsample" and "random_sample rng mfaces totfaces r = Inl e"
  shows "generate_random_loop rng store cap mfaces totfaces totsample i r st = Inl e"
  using assms by (subst generate_random_loop.simps) simp

text \<open>With a face to draw and room in the array as far as the capacity, the loop returns.\<close>

lemma array_loop_returns:
  assumes "mfaces \<noteq> []" and "\<forall>r. 0 \<le> fst (BLI_rng_get_int rng r)"
    and "0 \<le> i" and "cap \<le> int (length (dst_data st))"
  shows "\<exists>res. generate_random_loop rng mesh_sample_store_array_sample cap mfaces (int (length mfaces))
                 totsample i r st = Inr res"
  using assms(3,4)
proof (induction "nat (totsample - i)" arbitrary: i r st)
  case 0
  then show ?case by (simp add: generate_random_loop_done)
next
  case (Suc k)
  then have k: "k = nat (totsample - (i + 1))" and i: "i < totsample" by simp_all
  obtain s r' where rs: "random_sample rng mfaces (int (length mfaces)) r = Inr (s, r')"
    using random_sample_returns [OF assms(1,2)] by blast
  show ?case
  proof (cases "i \<ge> cap")
    case True
    then show ?thesis by (simp add: array_loop_step [OF i rs])
  next
    case False
    let ?st = "st\<lparr>stored := stored st + 1, dst_data := (dst_data st)[nat i := s],
                  trace := trace st @ [Stored]\<rparr>"
    have "\<exists>res. generate_random_loop rng mesh_sample_store_array_sample cap mfaces (int (length mfaces))
                 totsample (i + 1) r' ?st = Inr res"
      using Suc.prems by (intro Suc.hyps(1) [OF k]) simp_all
    then show ?thesis
      using False Suc.prems by (simp add: array_loop_step [OF i rs])
  qed
qed

text \<open>
  Asked for more samples than the capacity, the loop fills the array up to the capacity
  and leaves at the first store that fails.
\<close>

lemma array_loop_overflow:
  assumes "mfaces \<noteq> []" and "\<forall>r. 0 \<le> fst (BLI_rng_get_int rng r)"
    and "0 \<le> i" and "i \<le> cap" and "cap < totsample" and "cap \<le> int (length (dst_data st))"
  shows "\<exists>res. generate_random_loop rng mesh_sample_store_array_sample cap mfaces (int (length mfaces))
                 totsample i r st = Inr res
           \<and> stored res = stored st + (cap - i)
           \<and> trace res = trace st @ replicate (nat (cap - i)) Stored @ [StoreFailed]
           \<and> length (dst_data res) = length (dst_data st)
           \<and> drop (nat cap) (dst_data res) = drop (nat cap) (dst_data st)"
  using assms(3-6)
proof (induction "nat (cap - i)" arbitrary: i r st)
  case 0
  then have i: "i = cap" by simp
  obtain s r' where rs: "random_sample rng mfaces (int (length mfaces)) r = Inr (s, r')"
    using random_sample_returns [OF assms(1,2)] by blast
  show ?case
    using 0 i rs
    by (subst generate_random_loop.simps) (simp add: mesh_sample_store_array_sample_def)
next
  case (Suc k)
  then have i: "i < cap" by simp
  obtain s r' where rs: "random_sample rng mfaces (int (length mfaces)) r = Inr (s, r')"
    using random_sample_returns [OF assms(1,2)] by blast
  let ?st = "st\<lparr>stored := stored st + 1, dst_data := (dst_data st)[nat i := s],
                  trace := trace st @ [Stored]\<rparr>"
  have step: "generate_random_loop rng mesh_sample_store_array_sample cap mfaces (int (length mfaces))
                 totsample i r st
     = generate_random_loop rng mesh_sample_store_array_sample cap mfaces (int (length mfaces))
                 totsample (i + 1) r' ?st"
    using Suc.prems i rs
    by (subst generate_random_loop.simps) (simp add: mesh_sample_store_array_sample_def)
  have k: "k = nat (cap - (i + 1))" using Suc.hyps(2) by simp
  have "\<exists>res. generate_random_loop rng mesh_sample_store_array_sample cap mfaces (int (length mfaces))
                 totsample (i + 1) r' ?st = Inr res
           \<and> stored res = stored ?st + (cap - (i + 1))
           \<and> trace res = trace ?st @ replicate (nat (cap - (i + 1))) Stored @ [StoreFailed]
           \<and> length (dst_data res) = length (dst_data ?st)
           \<and> drop (nat cap) (dst_data res) = drop (nat cap) (dst_data ?st)"
    using Suc.prems i by (intro Suc.hyps(1) [OF k]) simp_all
  then obtain res where res:
      "generate_random_loop rng mesh_sample_store_array_sample cap mfaces (int (length mfaces))
                 totsample (i + 1) r' ?st = Inr res"
      "stored res = stored ?st + (cap - (i + 1))"
      "trace res = trace ?st @ replicate (nat (cap - (i + 1))) Stored @ [StoreFailed]"
      "length (dst_data res) = length (dst_data ?st)"
      "drop (nat cap) (dst_data res) = drop (nat cap) (dst_data ?st)"
    by blast
  have rep: "replicate (nat (cap - i)) Stored = Stored # replicate (nat (cap - (i + 1))) Stored"
    using i by (metis Suc.hyps(2) k replicate_Suc)
  have dr: "drop (nat cap) ((dst_data st)[nat i := s]) = drop (nat cap) (dst_data st)"
    using i Suc.prems by (simp add: drop_update_cancel)
  show ?case
    using res rep dr by (simp add: step)
qed

lemma array_loop_not_div:
  "totfaces \<noteq> 0 \<Longrightarrow>
   generate_random_loop rng mesh_sample_store_array_sample cap mfaces totfaces totsample i r st
     \<noteq> Inl DivisionByZero"
proof (induction "nat (totsample - i)" arbitrary: i r st)
  case 0
  then show ?case by (simp add: generate_random_loop_done)
next
  case (Suc k)
  then have k: "k = nat (totsample - (i + 1))" and i: "i < totsample" by simp_all
  show ?case
    using i Suc.hyps(1) [OF k Suc.prems] random_sample_not_div [OF Suc.prems, of rng mfaces r]
    by (subst generate_random_loop.simps)
       (auto simp: mesh_sample_store_array_sample_def split: sum.splits prod.splits)
qed

text \<open>
  Two runs of the loop over arrays of one length that agree below \<open>i\<close> return the same
  count and the same stored samples, or the same error.
\<close>

lemma array_loop_deterministic:
  assumes "length (dst_data st1) = length (dst_data st2)"
    and "take (nat i) (dst_data st1) = take (nat i) (dst_data st2)"
    and "stored st1 = i" and "stored st2 = i" and "0 \<le> i"
  shows "map_sum id returned_and_stored
           (generate_random_loop rng mesh_sample_store_array_sample cap mfaces totfaces totsample i r st1)
       = map_sum id returned_and_stored
           (generate_random_loop rng mesh_sample_store_array_sample cap mfaces totfaces totsample i r st2)"
  using assms
proof (induction "nat (totsample - i)" arbitrary: i r st1 st2)
  case 0
  then show ?case
    by (simp add: generate_random_loop_done returned_and_stored_def stored_samples_def)
next
  case (Suc k)
  then have k: "k = nat (totsample - (i + 1))" and i: "i < totsample" by simp_all
  show ?case
  proof (cases "random_sample rng mfaces totfaces r")
    case (Inl e)
    then show ?thesis by (simp add: array_loop_error [OF i])
  next
    case (Inr p)
    then obtain s r' where rs: "random_sample rng mfaces totfaces r = Inr (s, r')" by (cases p) auto
    show ?thesis
    proof (cases "i \<ge> cap")
      case True
      then show ?thesis
        using Suc.prems by (simp add: array_loop_step [OF i rs] returned_and_stored_def stored_samples_def)
    next
      case False
      show ?thesis
      proof (cases "i \<ge> int (length (dst_data st1))")
        case True
        then show ?thesis
          using Suc.prems False by (simp add: array_loop_step [OF i rs])
      next
        case inb: False
        let ?st1 = "st1\<lparr>stored := stored st1 + 1, dst_data := (dst_data st1)[nat i := s],
                 trace := trace st1 @ [Stored]\<rparr>"
        let ?st2 = "st2\<lparr>stored := stored st2 + 1, dst_data := (dst_data st2)[nat i := s],
                 trace := trace st2 @ [Stored]\<rparr>"
        have n: "nat i < length (dst_data st1)" "nat i < length (dst_data st2)"
          using inb Suc.prems by simp_all
        have t: "take (nat (i + 1)) (dst_data ?st1) = take (nat (i + 1)) (dst_data ?st2)"
          using n Suc.prems by (simp add: nat_add_distrib take_Suc_update)
        have "map_sum id returned_and_stored
           (generate_random_loop rng mesh_sample_store_array_sample cap mfaces totfaces totsample (i + 1) r' ?st1)
         = map_sum id returned_and_stored
           (generate_random_loop rng mesh_sample_store_array_sample cap mfaces totfaces totsample (i + 1) r' ?st2)"
          using Suc.prems t by (intro Suc.hyps(1) [OF k]) simp_all
        then show ?thesis
          using Suc.prems False inb by (simp add: array_loop_step [OF i rs])
      qed
    qed
  qed
qed

subsection \<open>Rounding to binary32: lemmas\<close>

lemma round_even_eqI:
  assumes "of_int f \<le> z" and "z < of_int f + 1"
  shows "round_even z =
     (if z - of_int f < 1 / 2 then f else if 1 / 2 < z - of_int f then f + 1
      else if even f then f else f + 1)"
proof -
  have "\<lfloor>z\<rfloor> = f" using assms by linarith
  then show ?thesis by (simp add: round_even_def)
qed

lemma round_even_error: "\<bar>of_int (round_even z) - z\<bar> \<le> 1 / 2"
proof -
  have "of_int \<lfloor>z\<rfloor> \<le> z" "z < of_int \<lfloor>z\<rfloor> + 1" by linarith+
  then show ?thesis by (auto simp: round_even_def Let_def)
qed

lemma round_even_le: "z \<le> of_int m \<Longrightarrow> round_even z \<le> m"
proof -
  assume a: "z \<le> of_int m"
  have f: "of_int \<lfloor>z\<rfloor> \<le> z" "z < of_int \<lfloor>z\<rfloor> + 1" by linarith+
  have fm: "\<lfloor>z\<rfloor> \<le> m" using a by (simp add: floor_le_iff)
  show ?thesis
  proof (cases "\<lfloor>z\<rfloor> = m")
    case True
    then have "z = of_int m" using a f by linarith
    then show ?thesis by (simp add: round_even_def)
  next
    case False
    then have "\<lfloor>z\<rfloor> + 1 \<le> m" using fm by linarith
    then show ?thesis using fm by (auto simp: round_even_def Let_def)
  qed
qed

lemma round_even_ge: "of_int m \<le> z \<Longrightarrow> m \<le> round_even z"
proof -
  assume a: "of_int m \<le> z"
  then have "m \<le> \<lfloor>z\<rfloor>" by (simp add: le_floor_iff)
  then show ?thesis by (auto simp: round_even_def Let_def)
qed

lemma round_even_gt_half: "of_int m + 1 / 2 < z \<Longrightarrow> m + 1 \<le> round_even z"
proof -
  assume a: "of_int m + 1 / 2 < z"
  then have fm: "m \<le> \<lfloor>z\<rfloor>" by (simp add: le_floor_iff)
  show ?thesis
  proof (cases "\<lfloor>z\<rfloor> = m")
    case True
    then show ?thesis using a by (auto simp: round_even_def Let_def)
  next
    case False
    then have "m + 1 \<le> \<lfloor>z\<rfloor>" using fm by linarith
    then show ?thesis by (auto simp: round_even_def Let_def)
  qed
qed

lemma round_even_near_even:
  assumes "of_int m \<le> z" and "z \<le> of_int m + 1 / 2" and "even m"
  shows "round_even z = m"
proof -
  have "\<lfloor>z\<rfloor> = m" using assms by linarith
  then show ?thesis using assms by (auto simp: round_even_def Let_def)
qed

lemma binary32_round_nonneg: "0 \<le> x \<Longrightarrow> 0 \<le> binary32_round x"
proof -
  assume a: "0 \<le> x"
  let ?y = "\<bar>x\<bar> * 2 ^ 149"
  let ?u = "(2::real) ^ nat (bitlen \<lfloor>?y\<rfloor> - 24)"
  have "0 \<le> ?y / ?u" by simp
  then have "0 \<le> round_even (?y / ?u)" using round_even_ge [of 0] by simp
  then have "0 \<le> real_of_int (round_even (?y / ?u)) * ?u / 2 ^ 149" by simp
  then show ?thesis using a by (simp add: binary32_round_def Let_def sgn_if)
qed

text \<open>
  In a binade of the normal range: when \<open>2 ^ (k - 1) \<le> x * 2 ^ 149 < 2 ^ k\<close>, the spacing is
  \<open>2 ^ (k - 24)\<close>.
\<close>

lemma binary32_round_binade:
  assumes "24 \<le> k" and "2 ^ (k - 1) \<le> x * 2 ^ 149" and "x * 2 ^ 149 < 2 ^ k"
  shows "binary32_round x = of_int (round_even (x * 2 ^ 149 / 2 ^ (k - 24))) * 2 ^ (k - 24) / 2 ^ 149"
proof -
  have pos: "0 < x * 2 ^ 149" using assms(2) by (smt (verit) zero_less_power)
  then have x: "0 < x" by (simp add: zero_less_mult_iff)
  let ?n = "\<lfloor>x * 2 ^ 149\<rfloor>"
  have lo: "2 ^ (k - 1) \<le> ?n"
  proof -
    have "real_of_int (2 ^ (k - 1)) \<le> x * 2 ^ 149" using assms(2) by simp
    then show ?thesis by (simp only: le_floor_iff)
  qed
  have hi: "?n < 2 ^ k"
  proof -
    have "x * 2 ^ 149 < real_of_int (2 ^ k)" using assms(3) by simp
    then show ?thesis by (simp only: floor_less_iff)
  qed
  have "bitlen ?n \<le> int k" using hi by (simp add: bitlen_le_iff_power)
  moreover have "int k \<le> bitlen ?n" using lo assms(1) by (simp add: bitlen_ge_iff_power)
  ultimately have "bitlen ?n = int k" by simp
  then have "nat (bitlen ?n - 24) = k - 24" using assms(1) by simp
  then show ?thesis using x by (simp add: binary32_round_def Let_def)
qed

lemma binary32_round_eval:
  assumes "24 \<le> k" and "2 ^ (k - 1) \<le> x * 2 ^ 149" and "x * 2 ^ 149 < 2 ^ k"
    and "of_int f \<le> x * 2 ^ 149 / 2 ^ (k - 24)" and "x * 2 ^ 149 / 2 ^ (k - 24) < of_int f + 1"
  shows "binary32_round x =
     of_int (if x * 2 ^ 149 / 2 ^ (k - 24) - of_int f < 1 / 2 then f
             else if 1 / 2 < x * 2 ^ 149 / 2 ^ (k - 24) - of_int f then f + 1
             else if even f then f else f + 1) * 2 ^ (k - 24) / 2 ^ 149"
  unfolding binary32_round_binade [OF assms(1-3)] round_even_eqI [OF assms(4,5)] ..

lemma binary32_round_zero: "binary32_round 0 = 0"
  by (simp add: binary32_round_def)

text \<open>Below 1 the result is at most 1 and the error at most half the spacing below 1.\<close>

lemma binary32_round_below_one:
  assumes "0 \<le> x" and "x < 1"
  shows "binary32_round x \<le> 1" and "\<bar>binary32_round x - x\<bar> \<le> 1 / 2 ^ 25"
proof -
  define P :: real where "P = 2 ^ 149"
  define y where "y = x * P"
  define k where "k = nat (bitlen \<lfloor>y\<rfloor> - 24)"
  define u :: real where "u = 2 ^ k"
  define r where "r = round_even (y / u)"
  have P: "0 < P" by (simp add: P_def)
  have u: "0 < u" by (simp add: u_def)
  have y: "0 \<le> y" "y < P" using assms P by (simp_all add: y_def)
  have "y < real_of_int (2 ^ 149)" using y(2) by (simp add: P_def)
  then have "\<lfloor>y\<rfloor> < 2 ^ 149" by (simp only: floor_less_iff)
  then have "bitlen \<lfloor>y\<rfloor> \<le> 149" by (simp add: bitlen_le_iff_power)
  then have k: "k \<le> 125" by (simp add: k_def)
  have fl: "binary32_round x = real_of_int r * u / P"
  proof (cases "x = 0")
    case True
    then show ?thesis by (simp add: binary32_round_def round_even_def r_def y_def)
  next
    case False
    then show ?thesis
      using assms(1) by (simp add: binary32_round_def Let_def sgn_if r_def u_def k_def y_def P_def)
  qed
  have split: "P = 2 ^ (149 - k) * u"
    using k by (simp add: P_def u_def flip: power_add)
  have "y / u \<le> P / u" using y(2) u by (simp add: divide_right_mono)
  also have "P / u = 2 ^ (149 - k)" using u by (simp add: split)
  finally have "y / u \<le> real_of_int (2 ^ (149 - k))" by simp
  then have "r \<le> 2 ^ (149 - k)" unfolding r_def by (rule round_even_le)
  then have "real_of_int r \<le> real_of_int (2 ^ (149 - k))" by (simp only: of_int_le_iff)
  then have "real_of_int r * u \<le> 2 ^ (149 - k) * u" using u by simp
  then have "real_of_int r * u \<le> P" using split by simp
  then show "binary32_round x \<le> 1" using P by (simp add: fl)
  have u125: "u \<le> 2 ^ 125" unfolding u_def using k by (intro power_increasing) simp_all
  have "real_of_int r * u - y = u * (real_of_int r - y / u)" using u by (simp add: field_simps)
  then have "\<bar>real_of_int r * u - y\<bar> = u * \<bar>real_of_int r - y / u\<bar>"
    using u by (simp add: abs_mult)
  also have "\<dots> \<le> u * (1 / 2)"
    unfolding r_def using u by (intro mult_left_mono round_even_error) simp
  also have "\<dots> \<le> 2 ^ 125 * (1 / 2)" using u125 by simp
  finally have e: "\<bar>real_of_int r * u - y\<bar> \<le> 2 ^ 124" by simp
  have "binary32_round x - x = (real_of_int r * u - y) / P"
    using P by (simp add: fl y_def field_simps)
  then have "\<bar>binary32_round x - x\<bar> = \<bar>real_of_int r * u - y\<bar> / P"
    using P by simp
  also have "\<dots> \<le> 2 ^ 124 / P" using e P by (simp add: divide_right_mono)
  also have "\<dots> = 1 / 2 ^ 25" by (simp add: P_def)
  finally show "\<bar>binary32_round x - x\<bar> \<le> 1 / 2 ^ 25" .
qed

lemma binary32_round_one_up:
  assumes "1 \<le> x" and "x \<le> 1 + 1 / 2 ^ 24"
  shows "binary32_round x = 1"
proof -
  have b: "2 ^ (150 - 1) \<le> x * 2 ^ 149" "x * 2 ^ 149 < 2 ^ 150" using assms by simp_all
  have z: "real_of_int (2 ^ 23) \<le> x * 2 ^ 149 / 2 ^ (150 - 24)"
    "x * 2 ^ 149 / 2 ^ (150 - 24) \<le> real_of_int (2 ^ 23) + 1 / 2"
    using assms by simp_all
  have "round_even (x * 2 ^ 149 / 2 ^ (150 - 24)) = 2 ^ 23"
    by (rule round_even_near_even [OF z]) simp
  then show ?thesis
    by (simp add: binary32_round_binade [OF _ b])
qed

lemma binary32_round_above_one:
  assumes "1 + 1 / 2 ^ 24 < x" and "x \<le> 2"
  shows "1 < binary32_round x"
proof (cases "x = 2")
  case True
  have b: "2 ^ (151 - 1) \<le> (2::real) * 2 ^ 149" "(2::real) * 2 ^ 149 < 2 ^ 151" by simp_all
  have "round_even (2 * 2 ^ 149 / 2 ^ (151 - 24)) = 2 ^ 23"
    by (rule round_even_near_even [of "2 ^ 23"]) simp_all
  then show ?thesis
    unfolding True by (simp add: binary32_round_binade [OF _ b])
next
  case False
  then have b: "2 ^ (150 - 1) \<le> x * 2 ^ 149" "x * 2 ^ 149 < 2 ^ 150" using assms by simp_all
  have "real_of_int (2 ^ 23) + 1 / 2 < x * 2 ^ 149 / 2 ^ (150 - 24)"
    using assms by simp
  then have "2 ^ 23 + 1 \<le> round_even (x * 2 ^ 149 / 2 ^ (150 - 24))"
    by (rule round_even_gt_half)
  then have "real_of_int (2 ^ 23 + 1) \<le> real_of_int (round_even (x * 2 ^ 149 / 2 ^ (150 - 24)))"
    by (simp only: of_int_le_iff)
  then show ?thesis
    by (simp add: binary32_round_binade [OF _ b])
qed

lemma binary32_round_unit:
  assumes "0 \<le> x" and "x \<le> 1"
  shows "0 \<le> binary32_round x \<and> binary32_round x \<le> 1 \<and> \<bar>binary32_round x - x\<bar> \<le> 1 / 2 ^ 25"
proof (cases "x = 1")
  case True
  then show ?thesis using binary32_round_one_up [of 1] by simp
next
  case False
  then have "x < 1" using assms by simp
  then show ?thesis
    using binary32_round_below_one [OF assms(1)] binary32_round_nonneg [OF assms(1)] by simp
qed

lemma binary32_round_sum_le_one:
  assumes "0 \<le> x" and "x \<le> 2" and "\<not> 1 < binary32_round x"
  shows "0 \<le> binary32_round x \<and> binary32_round x \<le> 1 \<and> \<bar>binary32_round x - x\<bar> \<le> 1 / 2 ^ 24"
proof -
  have le: "x \<le> 1 + 1 / 2 ^ 24"
    using binary32_round_above_one [OF _ assms(2)] assms(3) by fastforce
  show ?thesis
  proof (cases "x < 1")
    case True
    then show ?thesis using binary32_round_unit [OF assms(1)] by simp
  next
    case False
    then have "binary32_round x = 1" using le by (intro binary32_round_one_up) simp_all
    then show ?thesis using False le by simp
  qed
qed

lemma binary32_round_gt_one:
  assumes "0 \<le> x" and "1 < binary32_round x"
  shows "1 + 1 / 2 ^ 24 < x"
proof (rule ccontr)
  assume "\<not> 1 + 1 / 2 ^ 24 < x"
  then have le: "x \<le> 1 + 1 / 2 ^ 24" by simp
  show False
  proof (cases "x < 1")
    case True
    then show ?thesis using binary32_round_below_one(1) [OF assms(1)] assms(2) by simp
  next
    case False
    then have "binary32_round x = 1" using le by (intro binary32_round_one_up) simp_all
    then show ?thesis using assms(2) by simp
  qed
qed

lemma binary32_round_le_pow:
  assumes "0 \<le> x" and "x < 2 ^ j"
  shows "binary32_round x \<le> 2 ^ j"
proof -
  define P :: real where "P = 2 ^ (149 + j)"
  define y where "y = x * 2 ^ 149"
  define k where "k = nat (bitlen \<lfloor>y\<rfloor> - 24)"
  define u :: real where "u = 2 ^ k"
  define r where "r = round_even (y / u)"
  have u: "0 < u" by (simp add: u_def)
  have y: "0 \<le> y" "y < P" using assms by (simp_all add: y_def P_def power_add)
  have "y < real_of_int (2 ^ (149 + j))" using y(2) by (simp add: P_def)
  then have "\<lfloor>y\<rfloor> < 2 ^ (149 + j)" by (simp only: floor_less_iff)
  moreover have "nat (int (149 + j)) = 149 + j" by simp
  ultimately have "bitlen \<lfloor>y\<rfloor> \<le> int (149 + j)" by (simp only: bitlen_le_iff_power) simp
  then have k: "k \<le> 125 + j" by (simp add: k_def)
  have fl: "binary32_round x = real_of_int r * u / 2 ^ 149"
  proof (cases "x = 0")
    case True
    then show ?thesis by (simp add: binary32_round_def round_even_def r_def y_def)
  next
    case False
    then show ?thesis
      using assms(1) by (simp add: binary32_round_def Let_def sgn_if r_def u_def k_def y_def)
  qed
  have split: "P = 2 ^ (149 + j - k) * u"
    using k by (simp add: P_def u_def flip: power_add)
  have "y / u \<le> P / u" using y(2) u by (simp add: divide_right_mono)
  also have "P / u = 2 ^ (149 + j - k)" using u by (simp add: split)
  finally have "y / u \<le> real_of_int (2 ^ (149 + j - k))" by simp
  then have "r \<le> 2 ^ (149 + j - k)" unfolding r_def by (rule round_even_le)
  then have "real_of_int r \<le> real_of_int (2 ^ (149 + j - k))" by (simp only: of_int_le_iff)
  then have "real_of_int r * u \<le> 2 ^ (149 + j - k) * u" using u by simp
  then have "real_of_int r * u \<le> P" using split by simp
  then have "real_of_int r * u / 2 ^ 149 \<le> P / 2 ^ 149" by (simp add: divide_right_mono)
  also have "P / 2 ^ 149 = 2 ^ j" by (simp add: P_def power_add)
  finally show ?thesis by (simp add: fl)
qed

subsection \<open>The weights of a sample\<close>

lemma abs_two_errors:
  fixes p q :: real
  assumes "\<bar>p\<bar> \<le> 1 / 2 ^ 25" and "\<bar>q\<bar> \<le> 1 / 2 ^ 24"
  shows "\<bar>p + q\<bar> \<le> 3 / 2 ^ 25"
proof -
  have "\<bar>p + q\<bar> \<le> \<bar>p\<bar> + \<bar>q\<bar>" by (rule abs_triangle_ineq)
  also have "\<dots> \<le> 1 / 2 ^ 25 + 1 / 2 ^ 24" using assms by (rule add_mono)
  also have "\<dots> = 3 / 2 ^ 25" by simp
  finally show ?thesis .
qed

lemma reflected_weights_barycentric:
  assumes "0 \<le> a" and "a \<le> 1" and "0 \<le> b" and "b \<le> 1"
  shows "barycentric_binary32 (reflected_weights a b)"
proof (cases "1 < binary32_round (a + b)")
  case False
  define s where "s = binary32_round (a + b)"
  have s: "0 \<le> s" "s \<le> 1" "\<bar>s - (a + b)\<bar> \<le> 1 / 2 ^ 24"
    using binary32_round_sum_le_one [of "a + b"] assms False by (simp_all add: s_def)
  define w where "w = binary32_round (1 - s)"
  have w: "0 \<le> w" "\<bar>w - (1 - s)\<bar> \<le> 1 / 2 ^ 25"
    using binary32_round_unit [of "1 - s"] s by (simp_all add: w_def)
  have "\<bar>(a + b) - s\<bar> \<le> 1 / 2 ^ 24" using s(3) by (simp only: abs_minus_commute)
  then have "\<bar>(w - (1 - s)) + ((a + b) - s)\<bar> \<le> 3 / 2 ^ 25" using w(2) by (intro abs_two_errors)
  then have "\<bar>w + a + b - 1\<bar> \<le> 3 / 2 ^ 25" by (simp add: algebra_simps)
  then show ?thesis
    using False w(1) assms by (simp add: reflected_weights_def s_def w_def)
next
  case True
  have big: "1 + 1 / 2 ^ 24 < a + b"
    using binary32_round_gt_one [of "a + b"] True assms by simp
  define a' where "a' = binary32_round (1 - a)"
  define b' where "b' = binary32_round (1 - b)"
  have a': "0 \<le> a'" "\<bar>a' - (1 - a)\<bar> \<le> 1 / 2 ^ 25"
    using binary32_round_unit [of "1 - a"] assms by (simp_all add: a'_def)
  have b': "0 \<le> b'" "\<bar>b' - (1 - b)\<bar> \<le> 1 / 2 ^ 25"
    using binary32_round_unit [of "1 - b"] assms by (simp_all add: b'_def)
  have "a' \<le> (1 - a) + 1 / 2 ^ 25" and "b' \<le> (1 - b) + 1 / 2 ^ 25"
    using a'(2) b'(2) by (simp_all only: abs_le_iff) simp_all
  then have lt: "a' + b' < 1" using big by simp
  define s where "s = binary32_round (a' + b')"
  have s: "0 \<le> s" "s \<le> 1" "\<bar>s - (a' + b')\<bar> \<le> 1 / 2 ^ 25"
    using binary32_round_unit [of "a' + b'"] a'(1) b'(1) lt by (simp_all add: s_def)
  define w where "w = binary32_round (1 - s)"
  have w: "0 \<le> w" "\<bar>w - (1 - s)\<bar> \<le> 1 / 2 ^ 25"
    using binary32_round_unit [of "1 - s"] s by (simp_all add: w_def)
  have "\<bar>(a' + b') - s\<bar> \<le> 1 / 2 ^ 25" using s(3) by (simp only: abs_minus_commute)
  then have "\<bar>(a' + b') - s\<bar> \<le> 1 / 2 ^ 24" by simp
  then have "\<bar>(w - (1 - s)) + ((a' + b') - s)\<bar> \<le> 3 / 2 ^ 25"
    using w(2) by (intro abs_two_errors)
  then have "\<bar>w + a' + b' - 1\<bar> \<le> 3 / 2 ^ 25" by (simp add: algebra_simps)
  then show ?thesis
    using True w(1) a'(1) b'(1) by (simp add: reflected_weights_def s_def w_def a'_def b'_def)
qed

lemma random_sample_weights:
  assumes "random_sample rng mfaces totfaces r = Inr (s, r')"
  shows "\<exists>rf. orig_weights s =
           reflected_weights (fst (BLI_rng_get_float rng rf))
             (fst (BLI_rng_get_float rng (snd (BLI_rng_get_float rng rf))))"
proof -
  obtain n r1 where d1: "BLI_rng_get_int rng r = (n, r1)" by (cases "BLI_rng_get_int rng r")
  obtain m r2 where d2: "BLI_rng_get_int rng r1 = (m, r2)" by (cases "BLI_rng_get_int rng r1")
  let ?face = "mfaces ! nat (n smod totfaces)"
  let ?rf = "if v4 ?face \<noteq> 0 then r2 else r1"
  obtain a r3 where d3: "BLI_rng_get_float rng ?rf = (a, r3)" by (cases "BLI_rng_get_float rng ?rf")
  obtain b r4 where d4: "BLI_rng_get_float rng r3 = (b, r4)" by (cases "BLI_rng_get_float rng r3")
  have "orig_weights s = reflected_weights a b"
    using assms d3 d4
    by (auto simp: random_sample_def d1 d2 Let_def reflected_weights_def split: if_splits)
  then have "orig_weights s =
           reflected_weights (fst (BLI_rng_get_float rng ?rf))
             (fst (BLI_rng_get_float rng (snd (BLI_rng_get_float rng ?rf))))"
    by (simp add: d3 d4)
  then show ?thesis by blast
qed

text \<open>What holds of every sample the body of the loop makes holds of every stored sample.\<close>

lemma array_loop_all_stored:
  assumes P: "\<And>r s r'. random_sample rng mfaces totfaces r = Inr (s, r') \<Longrightarrow> P s"
    and "generate_random_loop rng mesh_sample_store_array_sample cap mfaces totfaces totsample i r st = Inr res"
    and "stored st = i" and "0 \<le> i" and "nat i \<le> length (dst_data st)"
    and "\<forall>s \<in> set (take (nat i) (dst_data st)). P s"
  shows "length (stored_samples res) = nat (stored res) \<and> (\<forall>s \<in> set (stored_samples res). P s)"
  using assms(2-)
proof (induction "nat (totsample - i)" arbitrary: i r st)
  case 0
  then show ?case
    by (simp add: generate_random_loop_done stored_samples_def)
next
  case (Suc k)
  then have k: "k = nat (totsample - (i + 1))" and i: "i < totsample" by simp_all
  show ?case
  proof (cases "random_sample rng mfaces totfaces r")
    case (Inl e)
    then show ?thesis using Suc.prems(1) by (simp add: array_loop_error [OF i])
  next
    case (Inr p)
    then obtain s r' where rs: "random_sample rng mfaces totfaces r = Inr (s, r')" by (cases p) auto
    show ?thesis
    proof (cases "i \<ge> cap")
      case True
      then show ?thesis
        using Suc.prems by (auto simp: array_loop_step [OF i rs] stored_samples_def)
    next
      case False
      show ?thesis
      proof (cases "i \<ge> int (length (dst_data st))")
        case True
        then show ?thesis
          using Suc.prems False by (simp add: array_loop_step [OF i rs])
      next
        case inb: False
        let ?st = "st\<lparr>stored := stored st + 1, dst_data := (dst_data st)[nat i := s],
                 trace := trace st @ [Stored]\<rparr>"
        have n: "nat i < length (dst_data st)" using inb Suc.prems by simp
        have run: "generate_random_loop rng mesh_sample_store_array_sample cap mfaces totfaces totsample
                     (i + 1) r' ?st = Inr res"
          using Suc.prems False inb by (simp add: array_loop_step [OF i rs])
        have t: "take (nat (i + 1)) ((dst_data st)[nat i := s]) = take (nat i) (dst_data st) @ [s]"
          using n Suc.prems by (simp add: nat_add_distrib take_Suc_update)
        have all: "\<forall>s \<in> set (take (nat (i + 1)) (dst_data ?st)). P s"
          using Suc.prems(5) P [OF rs] by (simp add: t)
        show ?thesis
          using n Suc.prems by (intro Suc.hyps(1) [OF k run _ _ _ all]) (simp_all add: nat_add_distrib)
      qed
    qed
  qed
qed

subsection \<open>The example runs\<close>

lemma example_rng_new: "BLI_rng_new example_rng seed = uint seed * 2 ^ 16 + 13070"
  by (simp add: example_rng_def)

lemma example_rng_get_int:
  "BLI_rng_get_int example_rng x = (example_rng_step x div 2 ^ 17, example_rng_step x)"
  by (simp add: example_rng_def)

lemma example_rng_get_float:
  "BLI_rng_get_float example_rng x =
     (binary32_round (real_of_int (example_rng_step x div 2 ^ 17)) / 2 ^ 31, example_rng_step x)"
  by (simp add: example_rng_def)

lemma example_rng_float_range:
  "\<forall>r. 0 \<le> fst (BLI_rng_get_float example_rng r) \<and> fst (BLI_rng_get_float example_rng r) \<le> 1"
proof
  fix r
  define n where "n = example_rng_step r div 2 ^ 17"
  have s: "0 \<le> example_rng_step r" "example_rng_step r < 2 ^ 48"
    by (simp_all add: example_rng_step_def)
  have "n < 2 ^ 48 div 2 ^ 17"
    unfolding n_def using s by (simp add: zdiv_mono1 div_less_iff_less_mult flip: zless_iff_Suc_zadd) 
  then have hi: "n < 2 ^ 31" by simp
  have lo: "0 \<le> n" unfolding n_def using s by (simp add: pos_imp_zdiv_nonneg_iff)
  have "real_of_int n < real_of_int (2 ^ 31)" using hi by (simp only: of_int_less_iff)
  then have "real_of_int n < 2 ^ 31" by simp
  then have "binary32_round (real_of_int n) \<le> 2 ^ 31"
    using lo by (intro binary32_round_le_pow) simp_all
  moreover have "0 \<le> binary32_round (real_of_int n)"
    using lo by (intro binary32_round_nonneg) simp
  ultimately show "0 \<le> fst (BLI_rng_get_float example_rng r) \<and> fst (BLI_rng_get_float example_rng r) \<le> 1"
    by (simp add: example_rng_get_float n_def)
qed

lemma example_faces:
  "getTessFaceArray example_mesh =
     [\<lparr>v1 = 0, v2 = 1, v3 = 2, v4 = 0\<rparr>, \<lparr>v1 = 0, v2 = 1, v3 = 3, v4 = 2\<rparr>]"
  by (simp add: example_mesh_def)

lemma example_rng_steps:
  "example_rng_step 471822 = 74997374079233"
  "example_rng_step 74997374079233 = 191975850533752"
  "example_rng_step 191975850533752 = 74728958601763"
  "example_rng_step 74728958601763 = 36341473174258"
  "example_rng_step 36341473174258 = 139218870111509"
  "example_rng_step 139218870111509 = 83759306436604"
  "example_rng_step 83759306436604 = 45025215288919"
  "example_rng_step 45025215288919 = 202786096819478"
  "example_rng_step 202786096819478 = 2830363588201"
  "example_rng_step 2830363588201 = 26274246901952"
  "example_rng_step 406286 = 111363291238657"
  "example_rng_step 111363291238657 = 275126242730872"
  "example_rng_step 275126242730872 = 148349987793443"
  "example_rng_step 148349987793443 = 186783992668914"
  "example_rng_step 186783992668914 = 142544244542741"
  "example_rng_step 142544244542741 = 22969816182780"
  "example_rng_step 22969816182780 = 187058793584215"
  "example_rng_step 187058793584215 = 27802164473110"
  by (simp_all add: example_rng_step_def)

lemma example_round_1: "binary32_round (570136708) = 570136704"
  using binary32_round_eval [of 179 "570136708" 8908386] by simp

lemma example_round_2: "binary32_round (277263436) = 277263424"
  using binary32_round_eval [of 178 "277263436" 8664482] by simp

lemma example_round_3: "binary32_round (13240627 / 33554432) = 13240627 / 33554432"
  using binary32_round_eval [of 148 "13240627 / 33554432" 13240627] by simp

lemma example_round_4: "binary32_round (20313805 / 33554432) = 5078451 / 8388608"
  using binary32_round_eval [of 149 "20313805 / 33554432" 10156902] by simp

lemma example_round_5: "binary32_round (639032794) = 639032768"
  using binary32_round_eval [of 179 "639032794" 9984887] by simp

lemma example_round_6: "binary32_round (343515131) = 343515136"
  using binary32_round_eval [of 178 "343515131" 10734847] by simp

lemma example_round_7: "binary32_round (15352311 / 33554432) = 15352311 / 33554432"
  using binary32_round_eval [of 148 "15352311 / 33554432" 15352311] by simp

lemma example_round_8: "binary32_round (18202121 / 33554432) = 2275265 / 4194304"
  using binary32_round_eval [of 149 "18202121 / 33554432" 9101060] by simp

lemma example_round_9: "binary32_round (21593960) = 21593960"
  using binary32_round_eval [of 174 "21593960" 10796980] by simp

lemma example_round_10: "binary32_round (200456595) = 200456592"
  using binary32_round_eval [of 177 "200456595" 12528537] by simp

lemma example_round_11: "binary32_round (27756319 / 268435456) = 867385 / 8388608"
  using binary32_round_eval [of 146 "27756319 / 268435456" 13878159] by simp

lemma example_round_12: "binary32_round (7521223 / 8388608) = 7521223 / 8388608"
  using binary32_round_eval [of 149 "7521223 / 8388608" 15042446] by simp

lemma example_round_13: "binary32_round (1131820585) = 1131820544"
  using binary32_round_eval [of 180 "1131820585" 8842348] by simp

lemma example_round_14: "binary32_round (1425048772) = 1425048832"
  using binary32_round_eval [of 180 "1425048772" 11133193] by simp

lemma example_round_15: "binary32_round (9987771 / 8388608) = 9987771 / 8388608"
  using binary32_round_eval [of 150 "9987771 / 8388608" 9987771] by simp

lemma example_round_16: "binary32_round (1983717 / 4194304) = 1983717 / 4194304"
  using binary32_round_eval [of 148 "1983717 / 4194304" 15869736] by simp

lemma example_round_17: "binary32_round (2822011 / 8388608) = 2822011 / 8388608"
  using binary32_round_eval [of 148 "2822011 / 8388608" 11288044] by simp

lemma example_round_18: "binary32_round (6789445 / 8388608) = 6789445 / 8388608"
  using binary32_round_eval [of 149 "6789445 / 8388608" 13578890] by simp

lemma example_round_19: "binary32_round (1599163 / 8388608) = 1599163 / 8388608"
  using binary32_round_eval [of 147 "1599163 / 8388608" 12793304] by simp

lemma example_round_20: "binary32_round (1427145336) = 1427145344"
  using binary32_round_eval [of 180 "1427145336" 11149572] by simp

lemma example_round_21: "binary32_round (212113681) = 212113680"
  using binary32_round_eval [of 177 "212113681" 13257105] by simp

lemma example_round_22: "binary32_round (102453689 / 134217728) = 12806711 / 16777216"
  using binary32_round_eval [of 149 "102453689 / 134217728" 12806711] by simp

lemma example_round_23: "binary32_round (3970505 / 16777216) = 3970505 / 16777216"
  using binary32_round_eval [of 147 "3970505 / 16777216" 15882020] by simp

lemmas example_rounds = example_round_1 example_round_2 example_round_3 example_round_4 example_round_5 example_round_6 example_round_7 example_round_8 example_round_9 example_round_10 example_round_11 example_round_12 example_round_13 example_round_14 example_round_15 example_round_16 example_round_17 example_round_18 example_round_19 example_round_20 example_round_21 example_round_22 example_round_23

lemma example_sample_1:
  "random_sample example_rng (getTessFaceArray example_mesh) 2 471822 =
     Inr (\<lparr>orig_verts = (3, 2, 0),
           orig_weights = (5078451 / 8388608, 4454193 / 16777216, 4332241 / 33554432)\<rparr>,
          36341473174258)"
  by (simp add: random_sample_def example_rng_get_int example_rng_get_float example_rng_steps
        example_faces smod_int_alt_def example_rounds)

lemma example_sample_2:
  "random_sample example_rng (getTessFaceArray example_mesh) 2 36341473174258 =
     Inr (\<lparr>orig_verts = (0, 1, 2),
           orig_weights = (2275265 / 4194304, 9984887 / 33554432, 41933 / 262144)\<rparr>,
          45025215288919)"
  by (simp add: random_sample_def example_rng_get_int example_rng_get_float example_rng_steps
        example_faces smod_int_alt_def example_rounds)

lemma example_sample_3:
  "random_sample example_rng (getTessFaceArray example_mesh) 2 45025215288919 =
     Inr (\<lparr>orig_verts = (0, 1, 2),
           orig_weights = (7521223 / 8388608, 2699245 / 268435456, 12528537 / 134217728)\<rparr>,
          26274246901952)"
  by (simp add: random_sample_def example_rng_get_int example_rng_get_float example_rng_steps
        example_faces smod_int_alt_def example_rounds)

lemma example_sample_4:
  "random_sample example_rng (getTessFaceArray example_mesh) 2 406286 =
     Inr (\<lparr>orig_verts = (0, 1, 3),
           orig_weights = (1599163 / 8388608, 1983717 / 4194304, 2822011 / 8388608)\<rparr>,
          186783992668914)"
  by (simp add: random_sample_def example_rng_get_int example_rng_get_float example_rng_steps
        example_faces smod_int_alt_def example_rounds)

lemma example_sample_5:
  "random_sample example_rng (getTessFaceArray example_mesh) 2 186783992668914 =
     Inr (\<lparr>orig_verts = (0, 1, 3),
           orig_weights = (3970505 / 16777216, 11149573 / 16777216, 13257105 / 134217728)\<rparr>,
          27802164473110)"
  by (simp add: random_sample_def example_rng_get_int example_rng_get_float example_rng_steps
        example_faces smod_int_alt_def example_rounds)

lemma example_run:
  "BKE_mesh_sample_generate_random example_rng
     (BKE_mesh_sample_storage_array [zero_sample, zero_sample, zero_sample] 2) example_mesh 7 5
   = Inr example_generated"
proof -
  have n: "getNumTessFaces example_mesh = 2" by (simp add: getNumTessFaces_def example_faces)
  have s: "BLI_rng_new example_rng 7 = 471822" by (simp add: example_rng_new)
  show ?thesis
    unfolding BKE_mesh_sample_generate_random_def BKE_mesh_sample_storage_array_def n s
    by (simp add: array_loop_step [OF _ example_sample_1] array_loop_step [OF _ example_sample_2]
          array_loop_step [OF _ example_sample_3] example_generated_def)
qed

lemma example_run_reflected:
  "BKE_mesh_sample_generate_random example_rng
     (BKE_mesh_sample_storage_array [zero_sample] 1) example_mesh 6 2
   = Inr example_generated_reflected"
proof -
  have n: "getNumTessFaces example_mesh = 2" by (simp add: getNumTessFaces_def example_faces)
  have s: "BLI_rng_new example_rng 6 = 406286" by (simp add: example_rng_new)
  show ?thesis
    unfolding BKE_mesh_sample_generate_random_def BKE_mesh_sample_storage_array_def n s
    by (simp add: array_loop_step [OF _ example_sample_4] array_loop_step [OF _ example_sample_5]
          example_generated_reflected_def)
qed

subsection \<open>The claims about random sampling\<close>

text \<open>
  C3: for a mesh with at least one tessellated face and an array storage of capacity
  \<open>c \<ge> 0\<close> (an array of at least \<open>c\<close> samples), with a generator whose integers are not
  negative: if \<open>totsample > c\<close> then \<^verbatim>\<open>BKE_mesh_sample_generate_random\<close> returns exactly
  \<open>c\<close>, its iterations are \<open>c\<close> successful stores followed by the one failed store it
  stops at, and the array is unchanged from index \<open>c\<close> on.
\<close>

theorem generate_random_overflow:
  assumes "getTessFaceArray dm \<noteq> []" and "\<forall>r. 0 \<le> fst (BLI_rng_get_int rng r)"
    and "0 \<le> c" and "c < totsample" and "c \<le> int (length buf)"
  shows "\<exists>res. BKE_mesh_sample_generate_random rng (BKE_mesh_sample_storage_array buf c) dm seed totsample = Inr res
           \<and> stored res = c
           \<and> trace res = replicate (nat c) Stored @ [StoreFailed]
           \<and> length (dst_data res) = length buf
           \<and> drop (nat c) (dst_data res) = drop (nat c) buf"
  using array_loop_overflow [OF assms(1,2), of 0 c totsample "\<lparr>stored = 0, dst_data = buf, trace = []\<rparr>" "BLI_rng_new rng seed"] assms(3-5)
  by (simp add: BKE_mesh_sample_generate_random_def BKE_mesh_sample_storage_array_def getNumTessFaces_def)

theorem generate_random_overflow_witness:
  "getTessFaceArray example_mesh \<noteq> []
   \<and> (\<forall>r. 0 \<le> fst (BLI_rng_get_int example_rng r))
   \<and> (0::int) \<le> 2 \<and> (2::int) < 5 \<and> 2 \<le> int (length [zero_sample, zero_sample, zero_sample])
   \<and> BKE_mesh_sample_generate_random example_rng
        (BKE_mesh_sample_storage_array [zero_sample, zero_sample, zero_sample] 2) example_mesh 7 5
       = Inr example_generated
   \<and> stored example_generated = 2
   \<and> trace example_generated = [Stored, Stored, StoreFailed]
   \<and> length (dst_data example_generated) = 3
   \<and> drop 2 (dst_data example_generated) = [zero_sample]"
proof -
  have h1: "getTessFaceArray example_mesh \<noteq> []" by (simp add: example_mesh_def)
  have h3: "(0::int) \<le> 2" and h4: "(2::int) < 5" by simp_all
  have h5: "2 \<le> int (length [zero_sample, zero_sample, zero_sample])" by simp
  have e1: "replicate 2 Stored @ [StoreFailed] = [Stored, Stored, StoreFailed]"
    by (simp add: numeral_2_eq_2)
  have e2: "drop 2 [zero_sample, zero_sample, zero_sample] = [zero_sample]"
    by (simp add: numeral_2_eq_2)
  have e3: "nat 2 = 2" and e4: "length [zero_sample, zero_sample, zero_sample] = 3" by simp_all
  have "stored example_generated = 2
          \<and> trace example_generated = [Stored, Stored, StoreFailed]
          \<and> length (dst_data example_generated) = 3
          \<and> drop 2 (dst_data example_generated) = [zero_sample]"
    using generate_random_overflow [OF h1 example_rng_int_nonneg h3 h4 h5, of 7]
    unfolding e3 e4 e1 e2 example_run by auto
  with h1 example_rng_int_nonneg h3 h4 h5 example_run show ?thesis by auto
qed

text \<open>
  C4: for every mesh, storage, generator and seed, \<^verbatim>\<open>BKE_mesh_sample_generate_random\<close> with
  \<open>totsample = 0\<close> returns 0 and leaves the contents of the storage as they were; no
  iteration runs.
\<close>

theorem generate_random_zero:
  "BKE_mesh_sample_generate_random rng dst dm seed 0 = Inr \<lparr>stored = 0, dst_data = data dst, trace = []\<rparr>"
  by (simp add: BKE_mesh_sample_generate_random_def generate_random_loop_done)

text \<open>
  C6: \<^verbatim>\<open>BKE_mesh_sample_generate_random\<close> is deterministic in its seed. The generator state is
  made from the seed inside the function, so the mesh, the capacity, the seed and
  \<open>totsample\<close> fix the run: two runs into arrays of one length, whatever the arrays held
  before, return the same count and the same stored samples (vertex indices and weights),
  or stop at the same error.
\<close>

theorem generate_random_deterministic:
  assumes "length buf1 = length buf2"
  shows "map_sum id returned_and_stored
           (BKE_mesh_sample_generate_random rng (BKE_mesh_sample_storage_array buf1 c) dm seed totsample)
       = map_sum id returned_and_stored
           (BKE_mesh_sample_generate_random rng (BKE_mesh_sample_storage_array buf2 c) dm seed totsample)"
  unfolding BKE_mesh_sample_generate_random_def BKE_mesh_sample_storage_array_def
  using assms by (simp add: array_loop_deterministic)

theorem generate_random_deterministic_witness:
  "length [zero_sample, zero_sample, zero_sample]
     = length [\<lparr>orig_verts = (1, 1, 1), orig_weights = (1, 0, 0)\<rparr>,
               \<lparr>orig_verts = (2, 2, 2), orig_weights = (0, 1, 0)\<rparr>,
               \<lparr>orig_verts = (3, 3, 3), orig_weights = (0, 0, 1)\<rparr>]
   \<and> map_sum id returned_and_stored
       (BKE_mesh_sample_generate_random example_rng
          (BKE_mesh_sample_storage_array
             [\<lparr>orig_verts = (1, 1, 1), orig_weights = (1, 0, 0)\<rparr>,
              \<lparr>orig_verts = (2, 2, 2), orig_weights = (0, 1, 0)\<rparr>,
              \<lparr>orig_verts = (3, 3, 3), orig_weights = (0, 0, 1)\<rparr>] 2) example_mesh 7 5)
     = Inr (returned_and_stored example_generated)"
proof -
  have h: "length [zero_sample, zero_sample, zero_sample]
     = length [\<lparr>orig_verts = (1, 1, 1), orig_weights = (1, 0, 0)\<rparr>,
               \<lparr>orig_verts = (2, 2, 2), orig_weights = (0, 1, 0)\<rparr>,
               \<lparr>orig_verts = (3, 3, 3), orig_weights = (0, 0, 1)\<rparr>]" by simp
  show ?thesis
    using generate_random_deterministic [OF h, of example_rng 2 example_mesh 7 5] h
    by (simp add: example_run)
qed

text \<open>
  C9, as the code has it: with a generator whose floats lie in \<open>[0, 1]\<close>, every sample that
  \<^verbatim>\<open>BKE_mesh_sample_generate_random\<close> has stored in an array has three weights that are each
  non-negative and sum to 1 up to the rounding of the \<^verbatim>\<open>float\<close> operations, within
  \<open>3 / 2 ^ 25\<close>. They are the weights \<open>(1 - (a + b), a, b)\<close> of a pair \<open>(a, b)\<close> of two
  successive float draws, reflected to \<open>(1 - a, 1 - b)\<close> when \<open>a + b > 1\<close>, every operation
  rounded to binary32. The stored samples are as many as the returned count. And the run
  does return when the mesh has a face, the integers drawn are not negative and the
  array holds at least \<open>c\<close> samples.
\<close>

theorem generate_random_weights:
  assumes "\<forall>r. 0 \<le> fst (BLI_rng_get_float rng r) \<and> fst (BLI_rng_get_float rng r) \<le> 1"
  shows "(BKE_mesh_sample_generate_random rng (BKE_mesh_sample_storage_array buf c) dm seed totsample = Inr res
          \<longrightarrow> length (stored_samples res) = nat (stored res)
              \<and> (\<forall>s \<in> set (stored_samples res).
                    barycentric_binary32 (orig_weights s)
                    \<and> (\<exists>rf. orig_weights s =
                          reflected_weights (fst (BLI_rng_get_float rng rf))
                            (fst (BLI_rng_get_float rng (snd (BLI_rng_get_float rng rf)))))))
       \<and> (getTessFaceArray dm \<noteq> [] \<and> (\<forall>r. 0 \<le> fst (BLI_rng_get_int rng r)) \<and> c \<le> int (length buf)
          \<longrightarrow> (\<exists>res'. BKE_mesh_sample_generate_random rng (BKE_mesh_sample_storage_array buf c) dm seed
                        totsample = Inr res'))"
proof (intro conjI impI)
  let ?P = "\<lambda>s. barycentric_binary32 (orig_weights s)
            \<and> (\<exists>rf. orig_weights s =
                  reflected_weights (fst (BLI_rng_get_float rng rf))
                    (fst (BLI_rng_get_float rng (snd (BLI_rng_get_float rng rf)))))"
  assume a: "BKE_mesh_sample_generate_random rng (BKE_mesh_sample_storage_array buf c) dm seed totsample
               = Inr res"
  have P: "?P s" if "random_sample rng (getTessFaceArray dm) (getNumTessFaces dm) r = Inr (s, r')" for r s r'
  proof -
    from random_sample_weights [OF that] obtain rf where
      w: "orig_weights s = reflected_weights (fst (BLI_rng_get_float rng rf))
             (fst (BLI_rng_get_float rng (snd (BLI_rng_get_float rng rf))))" by blast
    have "barycentric_binary32 (orig_weights s)"
      unfolding w using assms by (intro reflected_weights_barycentric) simp_all
    with w show ?thesis by blast
  qed
  from a have run: "generate_random_loop rng mesh_sample_store_array_sample c (getTessFaceArray dm)
       (getNumTessFaces dm) totsample 0 (BLI_rng_new rng seed)
       \<lparr>stored = 0, dst_data = buf, trace = []\<rparr> = Inr res"
    by (simp add: BKE_mesh_sample_generate_random_def BKE_mesh_sample_storage_array_def)
  have all: "length (stored_samples res) = nat (stored res) \<and> (\<forall>s \<in> set (stored_samples res). ?P s)"
    by (rule array_loop_all_stored [where P = ?P, OF P run]) simp_all
  from all show "length (stored_samples res) = nat (stored res)" by blast
  from all show "\<forall>s \<in> set (stored_samples res). ?P s" by blast
next
  assume "getTessFaceArray dm \<noteq> [] \<and> (\<forall>r. 0 \<le> fst (BLI_rng_get_int rng r)) \<and> c \<le> int (length buf)"
  then show "\<exists>res'. BKE_mesh_sample_generate_random rng (BKE_mesh_sample_storage_array buf c) dm seed
                        totsample = Inr res'"
    using array_loop_returns [of "getTessFaceArray dm" rng 0 c "\<lparr>stored = 0, dst_data = buf, trace = []\<rparr>"
            totsample "BLI_rng_new rng seed"]
    by (simp add: BKE_mesh_sample_generate_random_def BKE_mesh_sample_storage_array_def getNumTessFaces_def)
qed

text \<open>
  The witness is the run with seed 6, whose one stored sample comes from a reflected pair:
  the draws are \<open>a = 2210587 / 4194304\<close> and \<open>b = 5566597 / 8388608\<close>, with \<open>a + b > 1\<close>.
\<close>

theorem generate_random_weights_witness:
  "(\<forall>r. 0 \<le> fst (BLI_rng_get_float example_rng r) \<and> fst (BLI_rng_get_float example_rng r) \<le> 1)
   \<and> getTessFaceArray example_mesh \<noteq> []
   \<and> (\<forall>r. 0 \<le> fst (BLI_rng_get_int example_rng r))
   \<and> 1 \<le> int (length [zero_sample])
   \<and> BKE_mesh_sample_generate_random example_rng
        (BKE_mesh_sample_storage_array [zero_sample] 1) example_mesh 6 2
       = Inr example_generated_reflected
   \<and> length (stored_samples example_generated_reflected) = 1
   \<and> barycentric_binary32 (1599163 / 8388608, 1983717 / 4194304, 2822011 / 8388608)
   \<and> reflected_weights (2210587 / 4194304) (5566597 / 8388608)
       = (1599163 / 8388608, 1983717 / 4194304, 2822011 / 8388608)
   \<and> 1 < binary32_round (2210587 / 4194304 + 5566597 / 8388608)"
proof -
  have st: "stored_samples example_generated_reflected =
     [\<lparr>orig_verts = (0, 1, 3),
       orig_weights = (1599163 / 8388608, 1983717 / 4194304, 2822011 / 8388608)\<rparr>]"
    by (simp add: stored_samples_def example_generated_reflected_def)
  have f: "getTessFaceArray example_mesh \<noteq> []" by (simp add: example_faces)
  have l: "1 \<le> int (length [zero_sample])" by simp
  have r: "reflected_weights (2210587 / 4194304) (5566597 / 8388608)
       = (1599163 / 8388608, 1983717 / 4194304, 2822011 / 8388608)"
    "1 < binary32_round (2210587 / 4194304 + 5566597 / 8388608)"
    by (simp_all add: reflected_weights_def example_rounds)
  show ?thesis
    using generate_random_weights [OF example_rng_float_range,
            of "[zero_sample]" 1 example_mesh 6 2 example_generated_reflected]
          example_rng_float_range example_rng_int_nonneg example_run_reflected f l r
    unfolding st by simp
qed

text \<open>
  C9 as stated fails on the sum: the \<^verbatim>\<open>float\<close> subtraction of line 201 rounds. In the run
  with seed 7 the first stored sample has the weights
  \<open>(5078451 / 2 ^ 23, 4454193 / 2 ^ 24, 4332241 / 2 ^ 25)\<close>: the exact
  \<open>1 - (a + b) = 20313805 / 2 ^ 25\<close> lies halfway between two binary32 numbers and is
  rounded to the even one, and the three weights sum to \<open>1 - 1 / 2 ^ 25\<close>.
\<close>

theorem generate_random_weights_counterexample:
  "BKE_mesh_sample_generate_random example_rng
     (BKE_mesh_sample_storage_array [zero_sample, zero_sample, zero_sample] 2) example_mesh 7 5
     = Inr example_generated
   \<and> orig_weights (hd (stored_samples example_generated))
       = (5078451 / 8388608, 4454193 / 16777216, 4332241 / 33554432)
   \<and> (5078451 / 8388608 + 4454193 / 16777216 + 4332241 / 33554432 :: real) = 1 - 1 / 2 ^ 25
   \<and> \<not> barycentric (orig_weights (hd (stored_samples example_generated)))"
  by (simp add: example_run stored_samples_def example_generated_def)

text \<open>
  C10: \<^verbatim>\<open>BKE_mesh_sample_generate_random\<close> with \<open>totsample \<ge> 1\<close> needs a mesh with at least one
  tessellated face. With no face the first iteration takes a random index modulo 0, for
  every storage; and into an array, a division by zero happens only when the mesh has no
  face.
\<close>

theorem generate_random_needs_face:
  assumes "1 \<le> totsample"
  shows "(getTessFaceArray dm = [] \<longrightarrow>
            BKE_mesh_sample_generate_random rng dst dm seed totsample = Inl DivisionByZero)
       \<and> (BKE_mesh_sample_generate_random rng (BKE_mesh_sample_storage_array buf c) dm seed totsample
            = Inl DivisionByZero \<longrightarrow> getTessFaceArray dm = [])"
proof (intro conjI impI)
  assume "getTessFaceArray dm = []"
  then show "BKE_mesh_sample_generate_random rng dst dm seed totsample = Inl DivisionByZero"
    using assms
    by (simp add: BKE_mesh_sample_generate_random_def getNumTessFaces_def)
       (subst generate_random_loop.simps, simp add: random_sample_no_faces)
next
  assume a: "BKE_mesh_sample_generate_random rng (BKE_mesh_sample_storage_array buf c) dm seed totsample
            = Inl DivisionByZero"
  show "getTessFaceArray dm = []"
  proof (rule ccontr)
    assume "getTessFaceArray dm \<noteq> []"
    then have "getNumTessFaces dm \<noteq> 0" by (simp add: getNumTessFaces_def)
    then have "generate_random_loop rng mesh_sample_store_array_sample c (getTessFaceArray dm)
                 (getNumTessFaces dm) totsample 0 (BLI_rng_new rng seed)
                 \<lparr>stored = 0, dst_data = buf, trace = []\<rparr> \<noteq> Inl DivisionByZero"
      by (rule array_loop_not_div)
    with a show False
      by (simp add: BKE_mesh_sample_generate_random_def BKE_mesh_sample_storage_array_def)
  qed
qed

theorem generate_random_needs_face_witness:
  "(1::int) \<le> 1
   \<and> BKE_mesh_sample_generate_random example_rng (BKE_mesh_sample_storage_single zero_sample)
        (example_mesh\<lparr>getTessFaceArray := []\<rparr>) 7 1 = Inl DivisionByZero
   \<and> BKE_mesh_sample_generate_random example_rng (BKE_mesh_sample_storage_array [zero_sample] 1)
        example_mesh 7 1 \<noteq> Inl DivisionByZero"
proof -
  have h: "(1::int) \<le> 1" by simp
  have e: "getTessFaceArray (example_mesh\<lparr>getTessFaceArray := []\<rparr>) = []" by simp
  have n: "getTessFaceArray example_mesh \<noteq> []" by (simp add: example_mesh_def)
  show ?thesis
    using generate_random_needs_face [OF h, of "example_mesh\<lparr>getTessFaceArray := []\<rparr>" example_rng
            "BKE_mesh_sample_storage_single zero_sample" 7] e
          generate_random_needs_face [OF h, of example_mesh example_rng _ 7 "[zero_sample]" 1] n
    by blast
qed

section \<open>Raycast sampling: theorems\<close>




subsection \<open>The example ray casts\<close>






subsection \<open>Which iterations store\<close>







lemma storage_single_is_array:
  "BKE_mesh_sample_storage_single sample = BKE_mesh_sample_storage_array [sample] 1"
  by (simp add: BKE_mesh_sample_storage_single_def BKE_mesh_sample_storage_array_def)

subsection \<open>The claim about raycast sampling\<close>




section \<open>Solver options: theorems\<close>

text \<open>
  C5: the value the constructor \<^verbatim>\<open>Options()\<close> builds satisfies the invariant of the data
  model: \<open>max_admm_iters \<ge> 1\<close>, \<open>max_cg_iters \<ge> 1\<close>, \<open>max_gs_iters \<ge> 1\<close> and
  \<open>timestep_s > 0\<close>.
\<close>

theorem Options_default_invariant:
  "max_admm_iters Options_default \<ge> 1
   \<and> max_cg_iters Options_default \<ge> 1
   \<and> max_gs_iters Options_default \<ge> 1
   \<and> timestep_s Options_default > 0"
  by (simp add: Options_default_def)

end
